theory Spec2Isabelle
  imports Main "HOL-Library.Multiset"
begin

section \<open>Tree Builder: \<^verbatim>\<open>components/FileTree.jsx\<close>\<close>

subsection \<open>Data model\<close>

text \<open>
  A flat file entry is what \<^verbatim>\<open>buildTree\<close> reads of each element of \<^verbatim>\<open>files\<close>:
  \<^verbatim>\<open>f.path\<close> (a string, since \<^verbatim>\<open>split\<close> is called on it) and \<^verbatim>\<open>f.size\<close>.
\<close>

record FlatFileEntry =
  entry_path :: string
  entry_size :: nat

text \<open>
  The two object shapes that \<^verbatim>\<open>buildTree\<close> allocates:
  \<^verbatim>\<open>{ name, path, type: 'file', size }\<close> and
  \<^verbatim>\<open>{ name, path, type: 'dir', expanded, children }\<close>.
  The \<^verbatim>\<open>type\<close> tag is the constructor.
\<close>

datatype TreeNode =
    FileNode string string nat
  | DirNode string string bool "TreeNode list"

subsection \<open>String helpers of the host language\<close>

text \<open>
  \<^verbatim>\<open>s.split(c)\<close> for a one-character separator: the result is never empty
  (\<^verbatim>\<open>''.split('/')\<close> is \<^verbatim>\<open>['']\<close>) and empty segments are kept.
\<close>

fun js_split :: "char \<Rightarrow> string \<Rightarrow> string list" where
  "js_split c [] = [[]]"
| "js_split c (x # xs) =
     (if x = c then [] # js_split c xs
      else (case js_split c xs of
              p # ps \<Rightarrow> (x # p) # ps
            | [] \<Rightarrow> [[x]]))"

text \<open>\<^verbatim>\<open>parts.join(sep)\<close>, used to reconstruct a path from a chain of names.\<close>

fun js_join :: "string \<Rightarrow> string list \<Rightarrow> string" where
  "js_join sep [] = []"
| "js_join sep [x] = x"
| "js_join sep (x # y # ys) = x @ sep @ js_join sep (y # ys)"

subsection \<open>\<^verbatim>\<open>buildTree\<close>\<close>

text \<open>
  \<^verbatim>\<open>current.find(n => n.type === 'dir' && n.name === name)\<close> returns the first
  directory object of that name. The test of one element:
\<close>

fun is_dir_named :: "string \<Rightarrow> TreeNode \<Rightarrow> bool" where
  "is_dir_named name (DirNode nm p e ch) = (nm = name)"
| "is_dir_named name (FileNode nm p s) = False"

text \<open>
  After \<^verbatim>\<open>current = dir.children\<close> the rest of the inner loop pushes into the children
  array of the directory object that \<^verbatim>\<open>find\<close> returned, which is the very array hanging
  in the tree. \<open>in_first_dir name f current\<close> is that update written as a value: \<open>f\<close>
  applied to the children of the first directory called \<open>name\<close>, the rest untouched.
\<close>

fun in_first_dir :: "string \<Rightarrow> (TreeNode list \<Rightarrow> TreeNode list) \<Rightarrow> TreeNode list \<Rightarrow> TreeNode list" where
  "in_first_dir name f [] = []"
| "in_first_dir name f (DirNode nm p e ch # ns) =
     (if nm = name then DirNode nm p e (f ch) # ns
      else DirNode nm p e ch # in_first_dir name f ns)"
| "in_first_dir name f (FileNode nm p s # ns) = FileNode nm p s # in_first_dir name f ns"

text \<open>
  The inner \<^verbatim>\<open>for (let i = 0; i < parts.length; i++)\<close> loop, from index \<open>i\<close> on: the
  remaining parts, the \<^verbatim>\<open>currentPath\<close> built so far and the level \<^verbatim>\<open>current\<close>.
  \<^verbatim>\<open>isLast\<close> is "no part follows"; an empty \<^verbatim>\<open>currentPath\<close> is falsy.
\<close>

fun add_parts :: "string \<Rightarrow> string list \<Rightarrow> nat \<Rightarrow> TreeNode list \<Rightarrow> TreeNode list" where
  "add_parts currentPath [] sz current = current"
| "add_parts currentPath (name # rest) sz current =
     (let currentPath' = (if currentPath \<noteq> [] then currentPath @ ''/'' @ name else name) in
      if rest = [] then current @ [FileNode name currentPath' sz]
      else if list_ex (is_dir_named name) current
        then in_first_dir name (\<lambda>ch. add_parts currentPath' rest sz ch) current
        else current @ [DirNode name currentPath' True (add_parts currentPath' rest sz [])])"

text \<open>One iteration of the outer loop \<^verbatim>\<open>for (const f of files)\<close>.\<close>

definition add_entry :: "TreeNode list \<Rightarrow> FlatFileEntry \<Rightarrow> TreeNode list" where
  "add_entry root f = add_parts [] (js_split CHR ''/'' (entry_path f)) (entry_size f) root"

definition buildTree :: "FlatFileEntry list \<Rightarrow> TreeNode list" where
  "buildTree files = foldl add_entry [] files"

subsection \<open>\<^verbatim>\<open>toggleNode\<close> and \<^verbatim>\<open>toggleDir\<close>\<close>

text \<open>
  \<^verbatim>\<open>toggleNode\<close> on values. A directory always carries a \<^verbatim>\<open>children\<close> array, and an
  array is truthy, so the second test is \<^verbatim>\<open>node.type === 'dir'\<close> alone.
\<close>

fun toggleNode :: "TreeNode \<Rightarrow> string \<Rightarrow> TreeNode" where
  "toggleNode (FileNode nm p s) path = FileNode nm p s"
| "toggleNode (DirNode nm p e ch) path =
     (if p = path then DirNode nm p (\<not> e) ch
      else DirNode nm p e (map (\<lambda>c. toggleNode c path) ch))"

text \<open>\<^verbatim>\<open>prev.map(n => toggleNode(n, path))\<close>, the new state set by \<^verbatim>\<open>toggleDir\<close>.\<close>

definition toggleDir :: "TreeNode list \<Rightarrow> string \<Rightarrow> TreeNode list" where
  "toggleDir prev path = map (\<lambda>n. toggleNode n path) prev"

subsection \<open>Observations on a forest\<close>

text \<open>
  The file nodes of a forest, across all depths, in preorder: each with the path
  reconstructed from the names on the way down (the names of its ancestor directories,
  then its own, joined by \<^verbatim>\<open>/\<close>) and with its size. \<open>anc\<close> is the chain of
  ancestor names of the level looked at.
\<close>

fun node_files :: "string list \<Rightarrow> TreeNode \<Rightarrow> (string \<times> nat) list" where
  "node_files anc (FileNode nm p s) = [(js_join ''/'' (anc @ [nm]), s)]"
| "node_files anc (DirNode nm p e ch) = concat (map (node_files (anc @ [nm])) ch)"

definition forest_files :: "string list \<Rightarrow> TreeNode list \<Rightarrow> (string \<times> nat) list" where
  "forest_files anc ns = concat (map (node_files anc) ns)"

text \<open>The directory nodes of a forest, each as its reconstructed path, in preorder.\<close>

fun node_dirs :: "string list \<Rightarrow> TreeNode \<Rightarrow> string list" where
  "node_dirs anc (FileNode nm p s) = []"
| "node_dirs anc (DirNode nm p e ch) =
     js_join ''/'' (anc @ [nm]) # concat (map (node_dirs (anc @ [nm])) ch)"

definition forest_dirs :: "string list \<Rightarrow> TreeNode list \<Rightarrow> string list" where
  "forest_dirs anc ns = concat (map (node_dirs anc) ns)"

text \<open>The same directory nodes as chains of names, before joining.\<close>

fun node_chains :: "string list \<Rightarrow> TreeNode \<Rightarrow> string list list" where
  "node_chains anc (FileNode nm p s) = []"
| "node_chains anc (DirNode nm p e ch) =
     (anc @ [nm]) # concat (map (node_chains (anc @ [nm])) ch)"

definition forest_chains :: "string list \<Rightarrow> TreeNode list \<Rightarrow> string list list" where
  "forest_chains anc ns = concat (map (node_chains anc) ns)"

text \<open>The names of the directory nodes of one level, in order.\<close>

fun dir_names :: "TreeNode list \<Rightarrow> string list" where
  "dir_names [] = []"
| "dir_names (DirNode nm p e ch # ns) = nm # dir_names ns"
| "dir_names (FileNode nm p s # ns) = dir_names ns"

text \<open>
  Deduplication by name and kind within each level: no two directory nodes of one
  level share a name, at the top level and below every directory.
\<close>

fun dedup_node :: "TreeNode \<Rightarrow> bool" where
  "dedup_node (FileNode nm p s) = True"
| "dedup_node (DirNode nm p e ch) = (distinct (dir_names ch) \<and> list_all dedup_node ch)"

definition dedup_forest :: "TreeNode list \<Rightarrow> bool" where
  "dedup_forest ns = (distinct (dir_names ns) \<and> list_all dedup_node ns)"

text \<open>Every directory node of the subtree has \<^verbatim>\<open>expanded\<close> set.\<close>

fun expanded_node :: "TreeNode \<Rightarrow> bool" where
  "expanded_node (FileNode nm p s) = True"
| "expanded_node (DirNode nm p e ch) = (e \<and> list_all expanded_node ch)"

text \<open>No directory name of the subtree contains the separator.\<close>

fun names_ok :: "TreeNode \<Rightarrow> bool" where
  "names_ok (FileNode nm p s) = True"
| "names_ok (DirNode nm p e ch) = (CHR ''/'' \<notin> set nm \<and> list_all names_ok ch)"

text \<open>Some directory node of the subtree has the given \<^verbatim>\<open>path\<close> field.\<close>

fun has_dir_path :: "string \<Rightarrow> TreeNode \<Rightarrow> bool" where
  "has_dir_path path (FileNode nm p s) = False"
| "has_dir_path path (DirNode nm p e ch) = (p = path \<or> list_ex (has_dir_path path) ch)"

subsection \<open>\<^verbatim>\<open>toggleNode\<close> with object identity\<close>

text \<open>
  Whether a node of the new forest is the same object as a node of the old one is not
  visible in \<^typ>\<open>TreeNode\<close>, where equal values are equal. \<open>ONode\<close> is a node object
  together with its identity: the first field is the address of the object, the others
  are those of \<^typ>\<open>TreeNode\<close>. Two nodes are the same object when their addresses are
  equal. Arrays are not given addresses; a children array is the list of the objects it
  holds.
\<close>

datatype ONode =
    OFile nat string string nat
  | ODir nat string string bool "ONode list"

text \<open>
  \<^verbatim>\<open>toggleNode\<close> with allocation. \<open>nxt\<close> is the next free address, returned
  advanced. An object literal \<^verbatim>\<open>{ ...node, ... }\<close> is a new object: it takes the
  address \<open>nxt\<close>, and its property values are evaluated after that.
  \<^item> first branch: a new object, \<^verbatim>\<open>expanded\<close> negated, the \<^verbatim>\<open>children\<close> array
    of the old object (spread copies the reference);
  \<^item> second branch: a new object, whose \<^verbatim>\<open>children\<close> is the \<^verbatim>\<open>map\<close> of the old
    array through \<^verbatim>\<open>toggleNode\<close>;
  \<^item> \<^verbatim>\<open>return node\<close>: the object passed in.
\<close>

fun toggleNode_h :: "ONode \<Rightarrow> string \<Rightarrow> nat \<Rightarrow> ONode \<times> nat"
  and toggleNodes_h :: "ONode list \<Rightarrow> string \<Rightarrow> nat \<Rightarrow> ONode list \<times> nat" where
  "toggleNode_h (OFile a nm p s) path nxt = (OFile a nm p s, nxt)"
| "toggleNode_h (ODir a nm p e ch) path nxt =
     (if p = path then (ODir nxt nm p (\<not> e) ch, Suc nxt)
      else (case toggleNodes_h ch path (Suc nxt) of
              (ch', nxt') \<Rightarrow> (ODir nxt nm p e ch', nxt')))"
| "toggleNodes_h [] path nxt = ([], nxt)"
| "toggleNodes_h (n # ns) path nxt =
     (case toggleNode_h n path nxt of
        (n', nxt1) \<Rightarrow> (case toggleNodes_h ns path nxt1 of
                         (ns', nxt2) \<Rightarrow> (n' # ns', nxt2)))"

text \<open>\<^verbatim>\<open>prev.map(n => toggleNode(n, path))\<close> on objects.\<close>

definition toggleDir_h :: "ONode list \<Rightarrow> string \<Rightarrow> nat \<Rightarrow> ONode list \<times> nat" where
  "toggleDir_h prev path nxt = toggleNodes_h prev path nxt"

text \<open>The value of an object: its fields without the address, all the way down.\<close>

fun erase :: "ONode \<Rightarrow> TreeNode" where
  "erase (OFile a nm p s) = FileNode nm p s"
| "erase (ODir a nm p e ch) = DirNode nm p e (map erase ch)"

text \<open>The addresses of all objects of a forest.\<close>

fun node_ids :: "ONode \<Rightarrow> nat list" where
  "node_ids (OFile a nm p s) = [a]"
| "node_ids (ODir a nm p e ch) = a # concat (map node_ids ch)"

definition forest_ids :: "ONode list \<Rightarrow> nat list" where
  "forest_ids ns = concat (map node_ids ns)"

text \<open>The file objects of a forest, in preorder, each with its address.\<close>

fun file_objects :: "ONode \<Rightarrow> ONode list" where
  "file_objects (OFile a nm p s) = [OFile a nm p s]"
| "file_objects (ODir a nm p e ch) = concat (map file_objects ch)"

definition forest_file_objects :: "ONode list \<Rightarrow> ONode list" where
  "forest_file_objects ns = concat (map file_objects ns)"

text \<open>
  The addresses of the directory objects that the traversal of \<^verbatim>\<open>toggleNode\<close>
  reaches: it goes down through the directories whose \<^verbatim>\<open>path\<close> differs from the
  target and stops at one whose \<^verbatim>\<open>path\<close> is the target.
\<close>

fun outer_dir_ids :: "string \<Rightarrow> ONode \<Rightarrow> nat list" where
  "outer_dir_ids path (OFile a nm p s) = []"
| "outer_dir_ids path (ODir a nm p e ch) =
     (if p = path then [a] else a # concat (map (outer_dir_ids path) ch))"

definition forest_outer_dir_ids :: "string \<Rightarrow> ONode list \<Rightarrow> nat list" where
  "forest_outer_dir_ids path ns = concat (map (outer_dir_ids path) ns)"

text \<open>The children arrays, with the objects in them, of the directories stopped at.\<close>

fun target_children :: "string \<Rightarrow> ONode \<Rightarrow> ONode list list" where
  "target_children path (OFile a nm p s) = []"
| "target_children path (ODir a nm p e ch) =
     (if p = path then [ch] else concat (map (target_children path) ch))"

definition forest_target_children :: "string \<Rightarrow> ONode list \<Rightarrow> ONode list list" where
  "forest_target_children path ns = concat (map (target_children path) ns)"

section \<open>Backend Gateway Client: \<^verbatim>\<open>lib/backend.js\<close>\<close>

subsection \<open>Values of the host language\<close>

text \<open>
  The gateway handles data whose shape it tests while running (\<^verbatim>\<open>typeof\<close>,
  \<^verbatim>\<open>Array.isArray\<close>, truthiness), so its values are modelled untyped: the JSON
  values and \<^verbatim>\<open>undefined\<close>. Numbers are the integers (fractions, \<^verbatim>\<open>NaN\<close> and
  the infinities are left out); a string is the sequence of the bytes of its UTF-8
  encoding; an object is the list of its own properties, each name occurring once.
\<close>

datatype jsval =
    Undefined
  | Null
  | Bool bool
  | Num int
  | Str string
  | Arr "jsval list"
  | Obj "(string \<times> jsval) list"

text \<open>Truthiness, as tested by \<^verbatim>\<open>!x\<close>, \<^verbatim>\<open>x && y\<close>, \<^verbatim>\<open>x || y\<close> and \<^verbatim>\<open>x ? y : z\<close>.\<close>

fun truthy :: "jsval \<Rightarrow> bool" where
  "truthy Undefined = False"
| "truthy Null = False"
| "truthy (Bool b) = b"
| "truthy (Num n) = (n \<noteq> 0)"
| "truthy (Str s) = (s \<noteq> [])"
| "truthy (Arr xs) = True"
| "truthy (Obj kvs) = True"

text \<open>\<^verbatim>\<open>a || b\<close> on values.\<close>

definition js_or :: "jsval \<Rightarrow> jsval \<Rightarrow> jsval" where
  "js_or a b = (if truthy a then a else b)"

text \<open>
  Reading a property. The source reads with \<^verbatim>\<open>?.\<close> where the value may be
  \<^verbatim>\<open>null\<close> or \<^verbatim>\<open>undefined\<close> and with \<^verbatim>\<open>.\<close> only on a value just tested truthy,
  so a read never throws and gives \<^verbatim>\<open>undefined\<close> on everything that is not an
  object holding the property. None of the property names read by the gateway is a
  built-in property of a string, a number, a Boolean or an array.
\<close>

fun js_get :: "jsval \<Rightarrow> string \<Rightarrow> jsval" where
  "js_get (Obj kvs) k = (case map_of kvs k of Some v \<Rightarrow> v | None \<Rightarrow> Undefined)"
| "js_get v k = Undefined"

text \<open>\<^verbatim>\<open>typeof x\<close>.\<close>

fun js_typeof :: "jsval \<Rightarrow> string" where
  "js_typeof Undefined = ''undefined''"
| "js_typeof Null = ''object''"
| "js_typeof (Bool b) = ''boolean''"
| "js_typeof (Num n) = ''number''"
| "js_typeof (Str s) = ''string''"
| "js_typeof (Arr xs) = ''object''"
| "js_typeof (Obj kvs) = ''object''"

text \<open>\<^verbatim>\<open>Array.isArray(x)\<close>.\<close>

fun js_isArray :: "jsval \<Rightarrow> bool" where
  "js_isArray (Arr xs) = True"
| "js_isArray v = False"

text \<open>Decimal digits of a number, for its conversion to a string.\<close>

definition digit_char :: "nat \<Rightarrow> char" where
  "digit_char d = ''0123456789'' ! d"

fun nat_digits :: "nat \<Rightarrow> string" where
  "nat_digits n =
     (if n < 10 then [digit_char n] else nat_digits (n div 10) @ [digit_char (n mod 10)])"

declare nat_digits.simps [simp del]

definition int_digits :: "int \<Rightarrow> string" where
  "int_digits i = (if i < 0 then CHR ''-'' # nat_digits (nat (- i)) else nat_digits (nat i))"

text \<open>
  \<^verbatim>\<open>String(x)\<close>, which is also what a template literal does to an interpolated value.
  An array is its elements joined by commas, \<^verbatim>\<open>null\<close> and \<^verbatim>\<open>undefined\<close> elements
  as empty strings; a plain object is \<^verbatim>\<open>[object Object]\<close>.
\<close>

fun js_String :: "jsval \<Rightarrow> string" where
  "js_String Undefined = ''undefined''"
| "js_String Null = ''null''"
| "js_String (Bool b) = (if b then ''true'' else ''false'')"
| "js_String (Num n) = int_digits n"
| "js_String (Str s) = s"
| "js_String (Arr xs) =
     js_join '','' (map (\<lambda>x. if x = Undefined \<or> x = Null then [] else js_String x) xs)"
| "js_String (Obj kvs) = ''[object Object]''"

text \<open>
  \<^verbatim>\<open>s.trim()\<close> removes white space and line terminators at both ends. A string is
  the sequence of the bytes of its UTF-8 encoding, so each white space character is the
  byte sequence that encodes it. The characters are those of the language definition:
  U+0009 to U+000D, U+0020, U+00A0, U+1680, U+2000 to U+200A, U+2028, U+2029, U+202F,
  U+205F, U+3000 and U+FEFF.
\<close>

definition js_white_space :: "string list" where
  "js_white_space =
     [[CHR 0x09], [CHR 0x0A], [CHR 0x0B], [CHR 0x0C], [CHR 0x0D], [CHR 0x20],
      [CHR 0xC2, CHR 0xA0],
      [CHR 0xE1, CHR 0x9A, CHR 0x80],
      [CHR 0xE2, CHR 0x80, CHR 0x80], [CHR 0xE2, CHR 0x80, CHR 0x81],
      [CHR 0xE2, CHR 0x80, CHR 0x82], [CHR 0xE2, CHR 0x80, CHR 0x83],
      [CHR 0xE2, CHR 0x80, CHR 0x84], [CHR 0xE2, CHR 0x80, CHR 0x85],
      [CHR 0xE2, CHR 0x80, CHR 0x86], [CHR 0xE2, CHR 0x80, CHR 0x87],
      [CHR 0xE2, CHR 0x80, CHR 0x88], [CHR 0xE2, CHR 0x80, CHR 0x89],
      [CHR 0xE2, CHR 0x80, CHR 0x8A],
      [CHR 0xE2, CHR 0x80, CHR 0xA8], [CHR 0xE2, CHR 0x80, CHR 0xA9],
      [CHR 0xE2, CHR 0x80, CHR 0xAF],
      [CHR 0xE2, CHR 0x81, CHR 0x9F],
      [CHR 0xE3, CHR 0x80, CHR 0x80],
      [CHR 0xEF, CHR 0xBB, CHR 0xBF]]"

text \<open>
  The length of the first of the given byte sequences that the string starts with, and 0
  when it starts with none of them.
\<close>

fun lead_len :: "string list \<Rightarrow> string \<Rightarrow> nat" where
  "lead_len [] s = 0"
| "lead_len (w # ws) s =
     (if w \<noteq> [] \<and> take (length w) s = w then length w else lead_len ws s)"

text \<open>Removing such sequences from the start of the string for as long as there is one.\<close>

function strip_leading :: "string list \<Rightarrow> string \<Rightarrow> string" where
  "strip_leading ws s =
     (if lead_len ws s = 0 then s else strip_leading ws (drop (lead_len ws s) s))"
  by pat_completeness auto

termination
proof (relation "measure (\<lambda>(ws, s). length s)")
  fix ws :: "string list" and s :: string
  assume n: "lead_len ws s \<noteq> 0"
  have "s \<noteq> []"
  proof
    assume "s = []"
    then have "lead_len ws s = 0" by (induction ws) auto
    with n show False by simp
  qed
  with n show "((ws, drop (lead_len ws s) s), (ws, s)) \<in> measure (\<lambda>(ws, s). length s)"
    by simp
qed simp

declare strip_leading.simps [simp del]

text \<open>
  \<^verbatim>\<open>s.trim()\<close>: the white space at the start is removed, then the white space at the
  end, which is the white space at the start of the reversed string, each sequence
  reversed.
\<close>

definition js_trim :: "string \<Rightarrow> string" where
  "js_trim s =
     rev (strip_leading (map rev js_white_space) (rev (strip_leading js_white_space s)))"

text \<open>
  \<^verbatim>\<open>encodeURIComponent\<close>: every byte of the string other than an unreserved
  character becomes \<^verbatim>\<open>%\<close> and two hexadecimal digits.
\<close>

definition uri_unreserved :: "char \<Rightarrow> bool" where
  "uri_unreserved c =
     (c \<in> set ''ABCDEFGHIJKLMNOPQRSTUVWXYZabcdefghijklmnopqrstuvwxyz0123456789-_.!~*()''
      \<or> c = CHR 0x27)"

definition hex_char :: "nat \<Rightarrow> char" where
  "hex_char d = ''0123456789ABCDEF'' ! d"

definition encodeURIComponent :: "string \<Rightarrow> string" where
  "encodeURIComponent s =
     concat (map (\<lambda>c. if uri_unreserved c then [c]
                        else [CHR ''%'', hex_char (of_char c div 16), hex_char (of_char c mod 16)]) s)"

text \<open>\<^verbatim>\<open>s.endsWith(suffix)\<close>.\<close>

definition js_endsWith :: "string \<Rightarrow> string \<Rightarrow> bool" where
  "js_endsWith s suffix =
     (length suffix \<le> length s \<and> drop (length s - length suffix) s = suffix)"

subsection \<open>Errors and their normalization\<close>

text \<open>
  \<^verbatim>\<open>new Error(message)\<close>. Thrown and caught again, an error object is a value whose
  \<^verbatim>\<open>message\<close> property is that string.
\<close>

datatype error = Error string

fun error_value :: "error \<Rightarrow> jsval" where
  "error_value (Error m) = Obj [(''message'', Str m)]"

text \<open>
  \<^verbatim>\<open>normalizeAxiosError(err)\<close>, branch by branch. \<open>err\<close> is whatever was caught.
  The template literal \<^verbatim>\<open>`${status} ${statusText}`\<close> converts both to strings.
\<close>

definition normalizeAxiosError :: "jsval \<Rightarrow> error" where
  "normalizeAxiosError err =
     (if truthy (js_get err ''response'') then
        (let status = js_or (js_get (js_get err ''response'') ''status'') (Str ''Unknown'');
             statusText = js_or (js_get (js_get err ''response'') ''statusText'') (Str ''Unknown Error'');
             data = js_get (js_get err ''response'') ''data''
         in if truthy data \<and> js_typeof data = ''object'' then
              (let detail = js_or (js_or (js_or (js_get data ''detail'') (js_get data ''message''))
                                        (js_get data ''error''))
                                  (js_get data ''msg'')
               in if truthy detail \<and> js_typeof detail = ''string'' \<and> js_trim (js_String detail) \<noteq> []
                  then Error (js_trim (js_String detail))
                  else Error (js_String status @ '' '' @ js_String statusText))
            else if truthy data \<and> js_typeof data = ''string'' \<and> js_trim (js_String data) \<noteq> []
              then Error (js_trim (js_String data))
            else Error (js_String status @ '' '' @ js_String statusText))
      else if truthy (js_get err ''request'') then Error ''Network error: backend unreachable''
      else if truthy (js_get err ''message'') then Error (js_String (js_get err ''message''))
      else if \<not> truthy err then Error ''Unknown error occurred''
      else if js_typeof err \<noteq> ''object'' then Error (js_String err)
      else Error ''Unknown error occurred'')"

subsection \<open>\<^verbatim>\<open>flattenFiles\<close>\<close>

text \<open>
  \<^verbatim>\<open>for (const node of n)\<close> throws a \<^verbatim>\<open>TypeError\<close> when \<open>n\<close> is not iterable. The
  wording of its message is the engine's.
\<close>

definition not_iterable :: jsval where
  "not_iterable = Obj [(''message'', Str ''n is not iterable'')]"

text \<open>\<^verbatim>\<open>const full = pfx ? `${pfx}/${node.name}` : node.name\<close>\<close>

definition full_name :: "jsval \<Rightarrow> jsval \<Rightarrow> jsval" where
  "full_name pfx node =
     (if truthy pfx then Str (js_String pfx @ ''/'' @ js_String (js_get node ''name''))
      else js_get node ''name'')"

text \<open>\<^verbatim>\<open>const nodeType = node.type || node.file_type\<close>\<close>

definition node_type :: "jsval \<Rightarrow> jsval" where
  "node_type node = js_or (js_get node ''type'') (js_get node ''file_type'')"

text \<open>\<^verbatim>\<open>{ path: node.path || full, size: node.size || 0 }\<close>\<close>

definition file_entry :: "jsval \<Rightarrow> jsval \<Rightarrow> jsval" where
  "file_entry node full =
     Obj [(''path'', js_or (js_get node ''path'') full),
          (''size'', js_or (js_get node ''size'') (Num 0))]"

text \<open>
  The inner function \<^verbatim>\<open>walk(n, pfx)\<close>. Its result is either the value thrown or the
  entries pushed to \<^verbatim>\<open>files\<close> by this call, in order. \<open>walk_loop\<close> is the
  \<^verbatim>\<open>for\<close> loop over the elements still to come. Iterating a string yields strings,
  which the loop skips as not being objects; the values iterable here are the arrays
  and the strings.
\<close>

function (sequential) walk :: "jsval \<Rightarrow> jsval \<Rightarrow> jsval + jsval list"
  and walk_loop :: "jsval list \<Rightarrow> jsval \<Rightarrow> jsval + jsval list" where
  "walk (Arr nodes) pfx = walk_loop nodes pfx"
| "walk (Str s) pfx = Inr []"
| "walk n pfx = Inl not_iterable"
| "walk_loop [] pfx = Inr []"
| "walk_loop (node # rest) pfx =
     (case (if \<not> truthy node \<or> js_typeof node \<noteq> ''object'' then Inr []
            else if node_type node = Str ''file'' then Inr [file_entry node (full_name pfx node)]
            else if node_type node = Str ''dir'' \<or> node_type node = Str ''directory''
                    \<or> truthy (js_get node ''children'')
              then walk (js_or (js_get node ''children'') (Arr [])) (full_name pfx node)
            else Inr []) of
        Inl e \<Rightarrow> Inl e
      | Inr found \<Rightarrow> (case walk_loop rest pfx of
                        Inl e \<Rightarrow> Inl e
                      | Inr later \<Rightarrow> Inr (found @ later)))"
  by pat_completeness auto

termination
proof (relation "measure (\<lambda>x. case x of
        Inl (n, pfx) \<Rightarrow> 2 * size n
      | Inr (nodes, pfx) \<Rightarrow> 2 * size_list size nodes + 1)")
  have in_obj: "map_of kvs k = Some x \<Longrightarrow> size x \<le> size_list (size_prod (\<lambda>_. 0) size) kvs"
    for kvs :: "(string \<times> jsval) list" and k x
    by (induction kvs) (auto split: if_splits)
  have got: "size (js_get v k) \<le> size v" for v k
  proof (cases v)
    case (Obj kvs)
    show ?thesis
    proof (cases "map_of kvs k")
      case None
      with Obj show ?thesis by simp
    next
      case (Some x)
      from in_obj [OF Some] Obj Some show ?thesis by simp
    qed
  qed simp_all
  have child: "size (js_or (js_get node k) (Arr [])) \<le> Suc (size node)" for node k
    using got [of node k] by (simp add: js_or_def)
  fix node :: jsval and rest :: "jsval list" and pfx :: jsval
  show "(Inl (js_or (js_get node ''children'') (Arr []), full_name pfx node),
         Inr (node # rest, pfx))
        \<in> measure (\<lambda>x. case x of
                  Inl (n, pfx) \<Rightarrow> 2 * size n
                | Inr (nodes, pfx) \<Rightarrow> 2 * size_list size nodes + 1)"
    using child [of node "''children''"] by simp
qed simp_all

text \<open>
  \<^verbatim>\<open>flattenFiles(nodes, prefix)\<close>; the default of \<^verbatim>\<open>prefix\<close> is the empty string.
\<close>

definition flattenFiles :: "jsval \<Rightarrow> jsval \<Rightarrow> jsval + jsval list" where
  "flattenFiles nodes prefix =
     (if \<not> truthy nodes \<or> \<not> js_isArray nodes then Inr [] else walk nodes prefix)"

subsection \<open>The HTTP client\<close>

text \<open>
  A request made through \<^verbatim>\<open>axios\<close>: the URL, the body of a \<^verbatim>\<open>post\<close>, the timeout
  in milliseconds.
\<close>

datatype request =
    Get string nat
  | Post string jsval nat

text \<open>
  What the gateway reads of a response that \<^verbatim>\<open>axios\<close> resolves with: \<^verbatim>\<open>res.status\<close>
  and \<^verbatim>\<open>res.data\<close>.
\<close>

record axios_response =
  resp_status :: int
  resp_data :: jsval

text \<open>
  The network is outside the program. It is a parameter: given the requests made so far
  and the request made now, the call either rejects with a thrown value (\<open>Inl\<close>) or
  resolves with a response (\<open>Inr\<close>). Every gateway function takes the list of requests
  made so far and returns it extended by the requests it made, next to its result: the
  error thrown (\<open>Inl\<close>) or the value returned (\<open>Inr\<close>).
\<close>

type_synonym network = "request list \<Rightarrow> request \<Rightarrow> jsval + axios_response"

text \<open>
  \<^verbatim>\<open>const BASE = process.env.NEXT_PUBLIC_BACKEND_URL || 'http://localhost:8000/api/v1'\<close>;
  \<open>env\<close> is the environment variable, if set.
\<close>

definition BASE :: "string option \<Rightarrow> string" where
  "BASE env = (case env of
                 Some url \<Rightarrow> if url \<noteq> [] then url else ''http://localhost:8000/api/v1''
               | None \<Rightarrow> ''http://localhost:8000/api/v1'')"

text \<open>A parameter with a default value takes it when the argument is \<^verbatim>\<open>undefined\<close>.\<close>

definition or_default :: "jsval \<Rightarrow> jsval \<Rightarrow> jsval" where
  "or_default v d = (if v = Undefined then d else v)"

text \<open>\<^verbatim>\<open>!paths || !Array.isArray(paths) || paths.length === 0\<close>\<close>

fun not_nonempty_array :: "jsval \<Rightarrow> bool" where
  "not_nonempty_array (Arr xs) = (xs = [])"
| "not_nonempty_array v = True"

subsection \<open>The gateway functions\<close>

text \<open>
  \<^verbatim>\<open>axios.get(`${BASE}/repos/${encodeURIComponent(owner)}/${encodeURIComponent(repo)}/files`,
  { timeout: 8000 })\<close>
\<close>

definition repoFilesRequest :: "string option \<Rightarrow> jsval \<Rightarrow> jsval \<Rightarrow> request" where
  "repoFilesRequest env owner repo =
     Get (BASE env @ ''/repos/'' @ encodeURIComponent (js_String owner) @ ''/''
          @ encodeURIComponent (js_String repo) @ ''/files'') 8000"

definition fetchRepoFiles ::
  "network \<Rightarrow> string option \<Rightarrow> jsval \<Rightarrow> jsval \<Rightarrow> request list \<Rightarrow> (error + jsval) \<times> request list" where
  "fetchRepoFiles net env owner repo log =
     (if \<not> truthy owner \<or> \<not> truthy repo
      then (Inl (Error ''Owner and repository name are required''), log)
      else
        (let rq = repoFilesRequest env owner repo
         in case net log rq of
              Inl err \<Rightarrow> (Inl (normalizeAxiosError err), log @ [rq])
            | Inr res \<Rightarrow>
                (case flattenFiles (js_or (js_get (resp_data res) ''files'') (Arr [])) (Str []) of
                   Inl err \<Rightarrow> (Inl (normalizeAxiosError err), log @ [rq])
                 | Inr files \<Rightarrow> (Inr (Arr files), log @ [rq]))))"

text \<open>
  \<^verbatim>\<open>axios.post(`${BASE}/repos/file-contents`, { owner, repo, file_paths: paths },
  { timeout: 15000 })\<close>
\<close>

definition fileContentsRequest :: "string option \<Rightarrow> jsval \<Rightarrow> jsval \<Rightarrow> jsval \<Rightarrow> request" where
  "fileContentsRequest env owner repo paths =
     Post (BASE env @ ''/repos/file-contents'')
          (Obj [(''owner'', owner), (''repo'', repo), (''file_paths'', paths)]) 15000"

definition fetchFileContents ::
  "network \<Rightarrow> string option \<Rightarrow> jsval \<Rightarrow> jsval \<Rightarrow> jsval \<Rightarrow> request list
   \<Rightarrow> (error + jsval) \<times> request list" where
  "fetchFileContents net env owner repo paths log =
     (if \<not> truthy owner \<or> \<not> truthy repo
      then (Inl (Error ''Owner and repository name are required''), log)
      else if not_nonempty_array paths
      then (Inl (Error ''File paths array is required and must not be empty''), log)
      else
        (let rq = fileContentsRequest env owner repo paths
         in case net log rq of
              Inl err \<Rightarrow> (Inl (normalizeAxiosError err), log @ [rq])
            | Inr res \<Rightarrow>
                (Inr (js_or (js_or (js_get (resp_data res) ''files'') (resp_data res)) (Arr [])),
                 log @ [rq])))"

definition summarizeTestsWithContent ::
  "network \<Rightarrow> string option \<Rightarrow> jsval \<Rightarrow> jsval \<Rightarrow> request list \<Rightarrow> (error + jsval) \<times> request list" where
  "summarizeTestsWithContent net env fileContents framework log =
     (if not_nonempty_array fileContents
      then (Inl (Error ''File contents array is required and must not be empty''), log)
      else
        (let url = BASE env @ ''/ai/summarize-tests-with-content?framework=''
                   @ encodeURIComponent (js_String (or_default framework (Str ''pytest'')));
             rq = Post url fileContents 60000
         in case net log rq of
              Inl err \<Rightarrow> (Inl (normalizeAxiosError err), log @ [rq])
            | Inr res \<Rightarrow> (Inr (resp_data res), log @ [rq])))"

text \<open>
  \<^verbatim>\<open>summarizeTests\<close> calls \<^verbatim>\<open>fetchFileContents\<close> inside its own \<^verbatim>\<open>try\<close>: an error
  thrown by the inner call is caught and normalized once more.
\<close>

definition summarizeTests ::
  "network \<Rightarrow> string option \<Rightarrow> jsval \<Rightarrow> jsval \<Rightarrow> jsval \<Rightarrow> jsval \<Rightarrow> request list
   \<Rightarrow> (error + jsval) \<times> request list" where
  "summarizeTests net env owner repo paths framework log =
     (if \<not> truthy owner \<or> \<not> truthy repo
      then (Inl (Error ''Owner and repository name are required''), log)
      else if not_nonempty_array paths
      then (Inl (Error ''File paths array is required and must not be empty''), log)
      else
        (case fetchFileContents net env owner repo paths log of
           (Inl e, log1) \<Rightarrow> (Inl (normalizeAxiosError (error_value e)), log1)
         | (Inr fileContents, log1) \<Rightarrow>
             (let url = BASE env @ ''/ai/summarize-tests-with-content?framework=''
                        @ encodeURIComponent (js_String (or_default framework (Str ''pytest'')));
                  rq = Post url fileContents 60000
              in case net log1 rq of
                   Inl err \<Rightarrow> (Inl (normalizeAxiosError err), log1 @ [rq])
                 | Inr res \<Rightarrow> (Inr (resp_data res), log1 @ [rq]))))"

definition generateCode ::
  "network \<Rightarrow> string option \<Rightarrow> jsval \<Rightarrow> jsval \<Rightarrow> jsval \<Rightarrow> request list
   \<Rightarrow> (error + jsval) \<times> request list" where
  "generateCode net env fileContent summary framework log =
     (if \<not> truthy fileContent then (Inl (Error ''File content is required''), log)
      else if \<not> truthy summary then (Inl (Error ''Summary is required''), log)
      else
        (let url = BASE env @ ''/ai/generate-code?summary='' @ encodeURIComponent (js_String summary)
                   @ ''&framework=''
                   @ encodeURIComponent (js_String (or_default framework (Str ''pytest'')));
             rq = Post url fileContent 60000
         in case net log rq of
              Inl err \<Rightarrow> (Inl (normalizeAxiosError err), log @ [rq])
            | Inr res \<Rightarrow> (Inr (resp_data res), log @ [rq])))"

definition generateTest ::
  "network \<Rightarrow> string option \<Rightarrow> jsval \<Rightarrow> jsval \<Rightarrow> jsval \<Rightarrow> request list
   \<Rightarrow> (error + jsval) \<times> request list" where
  "generateTest net env fileName fileContent scenario log =
     (if \<not> truthy fileName then (Inl (Error ''File name is required''), log)
      else if \<not> truthy fileContent then (Inl (Error ''File content is required''), log)
      else if \<not> truthy scenario then (Inl (Error ''Scenario is required''), log)
      else
        (let url = BASE env @ ''/ai/generate-test'';
             rq = Post url (Obj [(''file_name'', fileName), (''file_content'', fileContent),
                                 (''scenario'', scenario)]) 60000
         in case net log rq of
              Inl err \<Rightarrow> (Inl (normalizeAxiosError err), log @ [rq])
            | Inr res \<Rightarrow> (Inr (resp_data res), log @ [rq])))"

subsection \<open>\<^verbatim>\<open>checkBackendHealth\<close>\<close>

text \<open>
  \<^verbatim>\<open>BASE.endsWith('/api/v1') ? BASE.slice(0, -7) : BASE\<close> and the three candidate URLs.
\<close>

definition baseRoot :: "string option \<Rightarrow> string" where
  "baseRoot env =
     (if js_endsWith (BASE env) ''/api/v1'' then take (length (BASE env) - 7) (BASE env)
      else BASE env)"

definition candidates :: "string option \<Rightarrow> string list" where
  "candidates env =
     [baseRoot env @ ''/health'', BASE env @ ''/repos/health'', BASE env @ ''/ai/health'']"

text \<open>
  The loop \<^verbatim>\<open>for (const url of candidates)\<close>. A rejected request is caught and the loop
  goes on (the \<^verbatim>\<open>console.debug\<close> line has no effect on the result); a response with
  another status than 200 falls out of the \<^verbatim>\<open>try\<close> and the loop goes on as well.
\<close>

fun probe :: "network \<Rightarrow> string list \<Rightarrow> request list \<Rightarrow> bool \<times> request list" where
  "probe net [] log = (False, log)"
| "probe net (url # urls) log =
     (case net log (Get url 3000) of
        Inr res \<Rightarrow> if resp_status res = 200 then (True, log @ [Get url 3000])
                   else probe net urls (log @ [Get url 3000])
      | Inl err \<Rightarrow> probe net urls (log @ [Get url 3000]))"

definition checkBackendHealth ::
  "network \<Rightarrow> string option \<Rightarrow> request list \<Rightarrow> (error + bool) \<times> request list" where
  "checkBackendHealth net env log =
     (case probe net (candidates env) log of (ok, log') \<Rightarrow> (Inr ok, log'))"

subsection \<open>Notions of the specification\<close>

text \<open>
  A required argument that is missing or empty: \<^verbatim>\<open>undefined\<close>, \<^verbatim>\<open>null\<close> or the
  empty string for an argument that is a text (owner, repository, file name, file
  content, summary, scenario); \<^verbatim>\<open>undefined\<close>, \<^verbatim>\<open>null\<close> or the empty array for an
  argument that is a sequence (paths, file contents).
\<close>

definition blank_text :: "jsval \<Rightarrow> bool" where
  "blank_text v = (v = Undefined \<or> v = Null \<or> v = Str [])"

definition blank_list :: "jsval \<Rightarrow> bool" where
  "blank_list v = (v = Undefined \<or> v = Null \<or> v = Arr [])"

text \<open>
  A local validation failure of a gateway function: an error with one of the given
  messages, and the list of requests made as it was before the call.
\<close>

fun validation_failure ::
  "string list \<Rightarrow> request list \<Rightarrow> (error + jsval) \<times> request list \<Rightarrow> bool" where
  "validation_failure msgs log (Inl (Error m), log') = (m \<in> set msgs \<and> log' = log)"
| "validation_failure msgs log (Inr v, log') = False"

text \<open>A candidate answers HTTP 200: the request resolves and the status is 200.\<close>

fun answers_200 :: "jsval + axios_response \<Rightarrow> bool" where
  "answers_200 (Inr res) = (resp_status res = 200)"
| "answers_200 (Inl err) = False"

text \<open>
  The first truthy one of the \<^verbatim>\<open>detail\<close>, \<^verbatim>\<open>message\<close>, \<^verbatim>\<open>error\<close> and
  \<^verbatim>\<open>msg\<close> fields of a response body, \<^verbatim>\<open>msg\<close> if none is.
\<close>

definition body_detail :: "jsval \<Rightarrow> jsval" where
  "body_detail data =
     (if truthy (js_get data ''detail'') then js_get data ''detail''
      else if truthy (js_get data ''message'') then js_get data ''message''
      else if truthy (js_get data ''error'') then js_get data ''error''
      else js_get data ''msg'')"

text \<open>
  The text \<^verbatim>\<open>"{status} {statusText}"\<close> of a response, where a missing or zero status
  reads \<^verbatim>\<open>Unknown\<close> and a missing or empty status text reads \<^verbatim>\<open>Unknown Error\<close>.
\<close>

definition status_line :: "jsval \<Rightarrow> string" where
  "status_line response =
     (if truthy (js_get response ''status'') then js_String (js_get response ''status'')
      else ''Unknown'') @ '' '' @
     (if truthy (js_get response ''statusText'') then js_String (js_get response ''statusText'')
      else ''Unknown Error'')"

subsection \<open>Networks used in the examples\<close>

text \<open>A backend that answers every request with status 200 and the given body.\<close>

definition answering :: "jsval \<Rightarrow> network" where
  "answering body log rq = Inr \<lparr>resp_status = 200, resp_data = body\<rparr>"

text \<open>
  A backend whose first request times out (no response, the request object set) and that
  answers status 200 from the second request on.
\<close>

definition late_backend :: network where
  "late_backend log rq =
     (if log = []
      then Inl (Obj [(''message'', Str ''timeout of 3000ms exceeded''), (''request'', Obj [])])
      else Inr \<lparr>resp_status = 200, resp_data = Obj [(''status'', Str ''healthy'')]\<rparr>)"

text \<open>A backend that cannot be reached.\<close>

definition unreachable :: network where
  "unreachable log rq = Inl (Obj [(''message'', Str ''Network Error''), (''request'', Obj [])])"

text \<open>
  The response body
  \<^verbatim>\<open>{files:[{name:"src", type:"dir", children:[{name:"index.js", type:"file",
  path:"src/index.js", size:1200}]}]}\<close>.
\<close>

definition example_tree :: jsval where
  "example_tree =
     Obj [(''files'', Arr [Obj [(''name'', Str ''src''), (''type'', Str ''dir''),
        (''children'', Arr [Obj [(''name'', Str ''index.js''), (''type'', Str ''file''),
                                 (''path'', Str ''src/index.js''), (''size'', Num 1200)]])]])]"

section \<open>Properties of the Tree Builder\<close>

subsection \<open>Splitting and joining\<close>

lemma js_split_nonempty: "js_split c s \<noteq> []"
  by (induction s) (auto split: list.splits)

lemma js_join_split: "js_join [c] (js_split c s) = s"
proof (induction s)
  case Nil
  show ?case by simp
next
  case (Cons x xs)
  obtain p ps where sp: "js_split c xs = p # ps"
    using js_split_nonempty [of c xs] by (cases "js_split c xs") auto
  show ?case
  proof (cases "x = c")
    case True
    with Cons sp show ?thesis by simp
  next
    case False
    have "js_join [c] ((x # p) # ps) = x # js_join [c] (p # ps)"
      by (cases ps) auto
    with False Cons sp show ?thesis by simp
  qed
qed

subsection \<open>File nodes of the built forest\<close>

lemma forest_files_append [simp]:
  "forest_files anc (xs @ ys) = forest_files anc xs @ forest_files anc ys"
  by (simp add: forest_files_def)

lemma forest_files_Nil [simp]: "forest_files anc [] = []"
  by (simp add: forest_files_def)

lemma forest_files_Cons [simp]: "forest_files anc (n # ns) = node_files anc n @ forest_files anc ns"
  by (simp add: forest_files_def)

lemma node_files_Dir: "node_files anc (DirNode nm p e ch) = forest_files (anc @ [nm]) ch"
  by (simp add: forest_files_def)

lemma mset_in_first_dir:
  assumes "list_ex (is_dir_named name) ns"
    and "\<And>ch. mset (forest_files (anc @ [name]) (f ch)) = mset (forest_files (anc @ [name]) ch) + M"
  shows "mset (forest_files anc (in_first_dir name f ns)) = mset (forest_files anc ns) + M"
  using assms(1)
proof (induction ns)
  case Nil
  then show ?case by simp
next
  case (Cons n ns)
  show ?case
  proof (cases n)
    case (FileNode nm p s)
    with Cons show ?thesis by simp
  next
    case (DirNode nm p e ch)
    show ?thesis
    proof (cases "nm = name")
      case True
      with DirNode assms(2) [of ch] show ?thesis
        by (simp add: node_files_Dir del: node_files.simps)
    next
      case False
      with DirNode Cons show ?thesis by simp
    qed
  qed
qed

lemma mset_add_parts:
  "parts \<noteq> [] \<Longrightarrow>
   mset (forest_files anc (add_parts cp parts sz cur)) =
   mset (forest_files anc cur) + {#(js_join ''/'' (anc @ parts), sz)#}"
proof (induction parts arbitrary: anc cp cur)
  case Nil
  then show ?case by simp
next
  case (Cons name rest)
  define cp' where "cp' = (if cp \<noteq> [] then cp @ ''/'' @ name else name)"
  show ?case
  proof (cases "rest = []")
    case True
    then show ?thesis by (simp add: Let_def)
  next
    case False
    have IH: "\<And>ch. mset (forest_files (anc @ [name]) (add_parts cp' rest sz ch)) =
        mset (forest_files (anc @ [name]) ch) + {#(js_join ''/'' (anc @ name # rest), sz)#}"
      using Cons.IH [OF False, of "anc @ [name]" cp'] by simp
    show ?thesis
    proof (cases "list_ex (is_dir_named name) cur")
      case True
      have "mset (forest_files anc (in_first_dir name (\<lambda>ch. add_parts cp' rest sz ch) cur)) =
            mset (forest_files anc cur) + {#(js_join ''/'' (anc @ name # rest), sz)#}"
        by (rule mset_in_first_dir [OF True]) (rule IH)
      with True False show ?thesis by (simp add: Let_def cp'_def)
    next
      case F2: False
      from IH [of "[]"] F2 False show ?thesis
        by (simp add: Let_def cp'_def node_files_Dir del: node_files.simps)
    qed
  qed
qed

lemma mset_add_entry:
  "mset (forest_files [] (add_entry root f)) =
   mset (forest_files [] root) + {#(entry_path f, entry_size f)#}"
  unfolding add_entry_def
  using mset_add_parts [OF js_split_nonempty, of "[]" "[]" "CHR ''/''" "entry_path f" "entry_size f" root]
  by (simp add: js_join_split)

lemma mset_foldl_add_entry:
  "mset (forest_files [] (foldl add_entry root fs)) =
   mset (forest_files [] root) + mset (map (\<lambda>f. (entry_path f, entry_size f)) fs)"
  by (induction fs arbitrary: root) (simp_all add: mset_add_entry)

text \<open>
  C1. For every finite sequence of flat file entries, the empty one included,
  \<^verbatim>\<open>buildTree\<close> returns a forest with exactly as many file nodes, over all depths,
  as there are entries; and the file nodes, each taken with the \<^verbatim>\<open>/\<close>-join of the
  names of its ancestor directories followed by its own name and with its size, are
  exactly the entries, each taken with its path and its size, counted with
  multiplicity.
\<close>

theorem buildTree_files:
  "length (forest_files [] (buildTree files)) = length files \<and>
   mset (forest_files [] (buildTree files)) = mset (map (\<lambda>f. (entry_path f, entry_size f)) files)"
proof -
  have m: "mset (forest_files [] (buildTree files)) = mset (map (\<lambda>f. (entry_path f, entry_size f)) files)"
    unfolding buildTree_def by (simp add: mset_foldl_add_entry)
  from m have "size (mset (forest_files [] (buildTree files))) = size (mset (map (\<lambda>f. (entry_path f, entry_size f)) files))"
    by simp
  then have "length (forest_files [] (buildTree files)) = length files" by simp
  with m show ?thesis by simp
qed

theorem buildTree_files_witness:
  "length (forest_files [] (buildTree
      [\<lparr>entry_path = ''src/index.js'', entry_size = 1200\<rparr>,
       \<lparr>entry_path = ''src/utils/helpers.js'', entry_size = 800\<rparr>])) = 2 \<and>
   mset (forest_files [] (buildTree
      [\<lparr>entry_path = ''src/index.js'', entry_size = 1200\<rparr>,
       \<lparr>entry_path = ''src/utils/helpers.js'', entry_size = 800\<rparr>])) =
     {#(''src/index.js'', 1200), (''src/utils/helpers.js'', 800)#}"
  using buildTree_files
    [of "[\<lparr>entry_path = ''src/index.js'', entry_size = 1200\<rparr>,
          \<lparr>entry_path = ''src/utils/helpers.js'', entry_size = 800\<rparr>]"]
  by simp

subsection \<open>Directory nodes of the built forest\<close>

lemma dir_names_append [simp]: "dir_names (xs @ ys) = dir_names xs @ dir_names ys"
  by (induction xs rule: dir_names.induct) auto

lemma dir_names_in_first_dir [simp]: "dir_names (in_first_dir name f ns) = dir_names ns"
  by (induction ns rule: dir_names.induct) auto

lemma dir_named_iff: "list_ex (is_dir_named name) ns \<longleftrightarrow> name \<in> set (dir_names ns)"
  by (induction ns rule: dir_names.induct) auto

lemma dedup_in_first_dir:
  assumes "list_all dedup_node ns" and "\<And>ch. dedup_forest ch \<Longrightarrow> dedup_forest (f ch)"
  shows "list_all dedup_node (in_first_dir name f ns)"
  using assms(1)
proof (induction ns)
  case Nil
  then show ?case by simp
next
  case (Cons n ns)
  show ?case
  proof (cases n)
    case (FileNode nm p s)
    with Cons show ?thesis by simp
  next
    case (DirNode nm p e ch)
    with Cons.prems have "dedup_forest ch" by (simp add: dedup_forest_def)
    then have "dedup_forest (f ch)" by (rule assms(2))
    with DirNode Cons show ?thesis by (simp add: dedup_forest_def)
  qed
qed

lemma dedup_add_parts: "dedup_forest cur \<Longrightarrow> dedup_forest (add_parts cp parts sz cur)"
proof (induction parts arbitrary: cp cur)
  case Nil
  then show ?case by simp
next
  case (Cons name rest)
  define cp' where "cp' = (if cp \<noteq> [] then cp @ ''/'' @ name else name)"
  show ?case
  proof (cases "rest = []")
    case True
    with Cons.prems show ?thesis by (simp add: Let_def dedup_forest_def)
  next
    case False
    show ?thesis
    proof (cases "list_ex (is_dir_named name) cur")
      case True
      have "list_all dedup_node (in_first_dir name (\<lambda>ch. add_parts cp' rest sz ch) cur)"
        using Cons.prems Cons.IH by (intro dedup_in_first_dir) (simp_all add: dedup_forest_def)
      with True False Cons.prems show ?thesis
        by (simp add: Let_def cp'_def dedup_forest_def)
    next
      case F2: False
      have "dedup_forest (add_parts cp' rest sz [])"
        by (rule Cons.IH) (simp add: dedup_forest_def)
      with F2 False Cons.prems show ?thesis
        by (simp add: Let_def cp'_def dedup_forest_def dir_named_iff)
    qed
  qed
qed

lemma dedup_foldl: "dedup_forest root \<Longrightarrow> dedup_forest (foldl add_entry root fs)"
  by (induction fs arbitrary: root) (simp_all add: add_entry_def dedup_add_parts)

lemma dedup_buildTree: "dedup_forest (buildTree files)"
  unfolding buildTree_def by (rule dedup_foldl) (simp add: dedup_forest_def)

lemma expanded_in_first_dir:
  assumes "list_all expanded_node ns"
    and "\<And>ch. list_all expanded_node ch \<Longrightarrow> list_all expanded_node (f ch)"
  shows "list_all expanded_node (in_first_dir name f ns)"
  using assms(1)
proof (induction ns)
  case Nil
  then show ?case by simp
next
  case (Cons n ns)
  show ?case
  proof (cases n)
    case (FileNode nm p s)
    with Cons show ?thesis by simp
  next
    case (DirNode nm p e ch)
    with Cons assms(2) [of ch] show ?thesis by simp
  qed
qed

lemma expanded_add_parts:
  "list_all expanded_node cur \<Longrightarrow> list_all expanded_node (add_parts cp parts sz cur)"
proof (induction parts arbitrary: cp cur)
  case Nil
  then show ?case by simp
next
  case (Cons name rest)
  define cp' where "cp' = (if cp \<noteq> [] then cp @ ''/'' @ name else name)"
  have "list_all expanded_node (in_first_dir name (\<lambda>ch. add_parts cp' rest sz ch) cur)"
    using Cons.prems Cons.IH by (intro expanded_in_first_dir)
  moreover have "list_all expanded_node (add_parts cp' rest sz [])"
    by (rule Cons.IH) simp
  ultimately show ?case using Cons.prems by (simp add: Let_def cp'_def)
qed

lemma expanded_foldl:
  "list_all expanded_node root \<Longrightarrow> list_all expanded_node (foldl add_entry root fs)"
  by (induction fs arbitrary: root) (simp_all add: add_entry_def expanded_add_parts)

lemma expanded_buildTree: "list_all expanded_node (buildTree files)"
  unfolding buildTree_def by (rule expanded_foldl) simp

lemma js_split_no_sep: "p \<in> set (js_split c s) \<Longrightarrow> c \<notin> set p"
proof (induction s arbitrary: p)
  case Nil
  then show ?case by simp
next
  case (Cons x xs)
  obtain q qs where sp: "js_split c xs = q # qs"
    using js_split_nonempty [of c xs] by (cases "js_split c xs") auto
  show ?case
  proof (cases "x = c")
    case True
    with Cons show ?thesis by auto
  next
    case False
    with Cons.prems sp have "p = x # q \<or> p \<in> set qs" by simp
    moreover have "c \<notin> set q" using Cons.IH [of q] sp by simp
    moreover have "p \<in> set qs \<Longrightarrow> c \<notin> set p" using Cons.IH [of p] sp by simp
    ultimately show ?thesis using False by auto
  qed
qed

lemma js_split_plain: "c \<notin> set x \<Longrightarrow> js_split c x = [x]"
  by (induction x) auto

lemma js_split_app: "c \<notin> set x \<Longrightarrow> js_split c (x @ c # r) = x # js_split c r"
  by (induction x) auto

lemma js_split_join:
  "xs \<noteq> [] \<Longrightarrow> \<forall>x\<in>set xs. c \<notin> set x \<Longrightarrow> js_split c (js_join [c] xs) = xs"
proof (induction xs rule: induct_list012)
  case 1
  then show ?case by simp
next
  case (2 x)
  then show ?case by (simp add: js_split_plain)
next
  case (3 x y ys)
  then show ?case by (simp add: js_split_app)
qed

lemma names_ok_in_first_dir:
  assumes "list_all names_ok ns"
    and "\<And>ch. list_all names_ok ch \<Longrightarrow> list_all names_ok (f ch)"
  shows "list_all names_ok (in_first_dir name f ns)"
  using assms(1)
proof (induction ns)
  case Nil
  then show ?case by simp
next
  case (Cons n ns)
  show ?case
  proof (cases n)
    case (FileNode nm p s)
    with Cons show ?thesis by simp
  next
    case (DirNode nm p e ch)
    with Cons assms(2) [of ch] show ?thesis by auto
  qed
qed

lemma names_ok_add_parts:
  "list_all names_ok cur \<Longrightarrow> \<forall>p\<in>set parts. CHR ''/'' \<notin> set p \<Longrightarrow>
   list_all names_ok (add_parts cp parts sz cur)"
proof (induction parts arbitrary: cp cur)
  case Nil
  then show ?case by simp
next
  case (Cons name rest)
  define cp' where "cp' = (if cp \<noteq> [] then cp @ ''/'' @ name else name)"
  have r: "\<forall>p\<in>set rest. CHR ''/'' \<notin> set p" using Cons.prems by simp
  have "list_all names_ok (in_first_dir name (\<lambda>ch. add_parts cp' rest sz ch) cur)"
    using Cons.prems(1) Cons.IH r by (intro names_ok_in_first_dir)
  moreover have "list_all names_ok (add_parts cp' rest sz [])"
    using r by (intro Cons.IH) simp_all
  ultimately show ?case using Cons.prems by (simp add: Let_def cp'_def)
qed

lemma names_ok_foldl:
  "list_all names_ok root \<Longrightarrow> list_all names_ok (foldl add_entry root fs)"
  by (induction fs arbitrary: root)
     (simp_all add: add_entry_def names_ok_add_parts js_split_no_sep)

lemma names_ok_buildTree: "list_all names_ok (buildTree files)"
  unfolding buildTree_def by (rule names_ok_foldl) simp

lemma node_dirs_chains: "node_dirs anc n = map (js_join ''/'') (node_chains anc n)"
  by (induction n arbitrary: anc) (simp_all add: map_concat cong: map_cong)

lemma forest_dirs_chains: "forest_dirs anc ns = map (js_join ''/'') (forest_chains anc ns)"
  by (induction ns) (simp_all add: forest_dirs_def forest_chains_def node_dirs_chains)

lemma node_chains_shape:
  "c \<in> set (node_chains anc n) \<Longrightarrow>
   \<exists>r. c = anc @ r \<and> r \<noteq> [] \<and> (\<forall>nm p e ch. n = DirNode nm p e ch \<longrightarrow> hd r = nm)"
proof (induction n arbitrary: anc c)
  case (FileNode nm p s)
  then show ?case by simp
next
  case (DirNode nm p e ch)
  from DirNode.prems have "c = anc @ [nm] \<or> (\<exists>k\<in>set ch. c \<in> set (node_chains (anc @ [nm]) k))"
    by auto
  then show ?case
  proof
    assume "c = anc @ [nm]"
    then show ?thesis by simp
  next
    assume "\<exists>k\<in>set ch. c \<in> set (node_chains (anc @ [nm]) k)"
    then obtain k where k: "k \<in> set ch" "c \<in> set (node_chains (anc @ [nm]) k)" by blast
    from DirNode.IH [OF k] obtain r where "c = (anc @ [nm]) @ r" by blast
    then have "c = anc @ (nm # r)" by simp
    then show ?thesis by (intro exI [of _ "nm # r"]) simp
  qed
qed

lemma forest_chains_shape:
  "c \<in> set (forest_chains anc ns) \<Longrightarrow> \<exists>r. c = anc @ r \<and> r \<noteq> [] \<and> hd r \<in> set (dir_names ns)"
proof (induction ns rule: dir_names.induct)
  case 1
  then show ?case by (simp add: forest_chains_def)
next
  case (2 nm p e ch ns)
  from "2.prems" have "c \<in> set (node_chains anc (DirNode nm p e ch)) \<or> c \<in> set (forest_chains anc ns)"
    by (auto simp: forest_chains_def)
  then show ?case
  proof
    assume "c \<in> set (node_chains anc (DirNode nm p e ch))"
    from node_chains_shape [OF this] show ?thesis by auto
  next
    assume "c \<in> set (forest_chains anc ns)"
    from "2.IH" [OF this] show ?thesis by auto
  qed
next
  case (3 nm p s ns)
  then show ?case by (simp add: forest_chains_def)
qed

lemma distinct_forest_chains:
  assumes "distinct (dir_names ns)" and "\<forall>n\<in>set ns. distinct (node_chains anc n)"
  shows "distinct (forest_chains anc ns)"
  using assms
proof (induction ns rule: dir_names.induct)
  case 1
  then show ?case by (simp add: forest_chains_def)
next
  case (2 nm p e ch ns)
  have d1: "distinct (node_chains anc (DirNode nm p e ch))" using "2.prems" by simp
  have d2: "distinct (forest_chains anc ns)" using "2.prems" "2.IH" by simp
  have "set (node_chains anc (DirNode nm p e ch)) \<inter> set (forest_chains anc ns) = {}"
  proof (rule ccontr)
    assume "\<not> ?thesis"
    then obtain c where c1: "c \<in> set (node_chains anc (DirNode nm p e ch))"
      and c2: "c \<in> set (forest_chains anc ns)" by blast
    from node_chains_shape [OF c1] obtain r where r: "c = anc @ r" "hd r = nm" by blast
    from forest_chains_shape [OF c2] obtain r' where r': "c = anc @ r'" "hd r' \<in> set (dir_names ns)"
      by blast
    from r r' have "nm \<in> set (dir_names ns)" by simp
    with "2.prems" show False by simp
  qed
  with d1 d2 have "distinct (node_chains anc (DirNode nm p e ch) @ forest_chains anc ns)"
    by simp
  then show ?case by (simp add: forest_chains_def)
next
  case (3 nm p s ns)
  then show ?case by (simp add: forest_chains_def)
qed

lemma distinct_node_chains: "dedup_node n \<Longrightarrow> distinct (node_chains anc n)"
proof (induction n arbitrary: anc)
  case (FileNode nm p s)
  then show ?case by simp
next
  case (DirNode nm p e ch)
  have "\<forall>k\<in>set ch. distinct (node_chains (anc @ [nm]) k)"
    using DirNode by (simp add: list_all_iff)
  with DirNode.prems have d: "distinct (forest_chains (anc @ [nm]) ch)"
    by (intro distinct_forest_chains) simp_all
  have "anc @ [nm] \<notin> set (forest_chains (anc @ [nm]) ch)"
  proof
    assume "anc @ [nm] \<in> set (forest_chains (anc @ [nm]) ch)"
    from forest_chains_shape [OF this] show False by simp
  qed
  with d show ?case by (simp add: forest_chains_def)
qed

lemma distinct_chains_forest: "dedup_forest ns \<Longrightarrow> distinct (forest_chains anc ns)"
  by (rule distinct_forest_chains) (simp_all add: dedup_forest_def list_all_iff distinct_node_chains)

lemma node_chains_ok:
  "names_ok n \<Longrightarrow> \<forall>a\<in>set anc. CHR ''/'' \<notin> set a \<Longrightarrow> c \<in> set (node_chains anc n) \<Longrightarrow>
   c \<noteq> [] \<and> (\<forall>x\<in>set c. CHR ''/'' \<notin> set x)"
proof (induction n arbitrary: anc c)
  case (FileNode nm p s)
  then show ?case by simp
next
  case (DirNode nm p e ch)
  from DirNode.prems(3)
  have "c = anc @ [nm] \<or> (\<exists>k\<in>set ch. c \<in> set (node_chains (anc @ [nm]) k))" by auto
  then show ?case
  proof
    assume "c = anc @ [nm]"
    with DirNode.prems show ?thesis by auto
  next
    assume "\<exists>k\<in>set ch. c \<in> set (node_chains (anc @ [nm]) k)"
    then obtain k where k: "k \<in> set ch" "c \<in> set (node_chains (anc @ [nm]) k)" by blast
    have "names_ok k" using DirNode.prems(1) k(1) by (simp add: list_all_iff)
    moreover have "\<forall>a\<in>set (anc @ [nm]). CHR ''/'' \<notin> set a" using DirNode.prems by simp
    ultimately show ?thesis using DirNode.IH [OF k(1) _ _ k(2)] by blast
  qed
qed

lemma distinct_forest_dirs:
  assumes "dedup_forest ns" and "list_all names_ok ns"
  shows "distinct (forest_dirs [] ns)"
proof -
  have ok: "\<forall>c\<in>set (forest_chains [] ns). c \<noteq> [] \<and> (\<forall>x\<in>set c. CHR ''/'' \<notin> set x)"
    using assms(2) node_chains_ok [of _ "[]"]
    by (auto simp: forest_chains_def list_all_iff)
  have "inj_on (js_join ''/'') (set (forest_chains [] ns))"
  proof (rule inj_onI)
    fix a b
    assume a: "a \<in> set (forest_chains [] ns)" and b: "b \<in> set (forest_chains [] ns)"
      and eq: "js_join ''/'' a = js_join ''/'' b"
    from a ok have sa: "js_split CHR ''/'' (js_join ''/'' a) = a" by (intro js_split_join) auto
    from b ok have sb: "js_split CHR ''/'' (js_join ''/'' b) = b" by (intro js_split_join) auto
    from sa have "a = js_split CHR ''/'' (js_join ''/'' a)" by (rule sym)
    also from eq have "\<dots> = js_split CHR ''/'' (js_join ''/'' b)" by (rule arg_cong)
    also note sb
    finally show "a = b" .
  qed
  with distinct_chains_forest [OF assms(1), of "[]"] show ?thesis
    by (simp add: forest_dirs_chains distinct_map)
qed

text \<open>
  C2. In the forest returned by \<^verbatim>\<open>buildTree\<close> no level holds two directory nodes
  of one name, no two directory nodes of the whole forest have the same reconstructed
  path, and every directory node has \<^verbatim>\<open>expanded\<close> set. Building from
  \<^verbatim>\<open>[{path:"a/b.js", size:10}, {path:"a/c.js", size:20}]\<close> gives the single
  directory node \<^verbatim>\<open>a\<close>, expanded, with the two file nodes \<^verbatim>\<open>b.js\<close> (size 10)
  and \<^verbatim>\<open>c.js\<close> (size 20) as its children.
\<close>

theorem buildTree_dirs:
  "dedup_forest (buildTree files) \<and>
   distinct (forest_dirs [] (buildTree files)) \<and>
   list_all expanded_node (buildTree files) \<and>
   buildTree [\<lparr>entry_path = ''a/b.js'', entry_size = 10\<rparr>, \<lparr>entry_path = ''a/c.js'', entry_size = 20\<rparr>] =
     [DirNode ''a'' ''a'' True [FileNode ''b.js'' ''a/b.js'' 10, FileNode ''c.js'' ''a/c.js'' 20]]"
proof -
  have "buildTree [\<lparr>entry_path = ''a/b.js'', entry_size = 10\<rparr>, \<lparr>entry_path = ''a/c.js'', entry_size = 20\<rparr>] =
     [DirNode ''a'' ''a'' True [FileNode ''b.js'' ''a/b.js'' 10, FileNode ''c.js'' ''a/c.js'' 20]]"
    by (simp add: buildTree_def add_entry_def Let_def)
  then show ?thesis
    using dedup_buildTree [of files] expanded_buildTree [of files]
      distinct_forest_dirs [OF dedup_buildTree names_ok_buildTree, of files]
    by blast
qed

theorem buildTree_dirs_witness:
  "dedup_forest (buildTree
      [\<lparr>entry_path = ''src/index.js'', entry_size = 1200\<rparr>,
       \<lparr>entry_path = ''src/utils/helpers.js'', entry_size = 800\<rparr>]) \<and>
   distinct (forest_dirs [] (buildTree
      [\<lparr>entry_path = ''src/index.js'', entry_size = 1200\<rparr>,
       \<lparr>entry_path = ''src/utils/helpers.js'', entry_size = 800\<rparr>])) \<and>
   list_all expanded_node (buildTree
      [\<lparr>entry_path = ''src/index.js'', entry_size = 1200\<rparr>,
       \<lparr>entry_path = ''src/utils/helpers.js'', entry_size = 800\<rparr>])"
  using buildTree_dirs
    [of "[\<lparr>entry_path = ''src/index.js'', entry_size = 1200\<rparr>,
          \<lparr>entry_path = ''src/utils/helpers.js'', entry_size = 800\<rparr>]"]
  by blast

subsection \<open>Toggling\<close>

lemma toggleNode_twice: "toggleNode (toggleNode n path) path = n"
proof (induction n path rule: toggleNode.induct)
  case (1 nm p s path)
  show ?case by simp
next
  case (2 nm p e ch path)
  show ?case
  proof (cases "p = path")
    case True
    then show ?thesis by simp
  next
    case False
    with "2.IH" have "map ((\<lambda>c. toggleNode c path) \<circ> (\<lambda>c. toggleNode c path)) ch = ch"
      by (simp add: map_idI)
    with False show ?thesis by simp
  qed
qed

text \<open>
  C3. \<^verbatim>\<open>toggleDir\<close> is an involution: for every forest and every target path, toggling
  the same path twice gives back a forest equal, as a value, to the one started from.
\<close>

theorem toggleDir_involution: "toggleDir (toggleDir forest path) path = forest"
  by (simp add: toggleDir_def toggleNode_twice map_idI)

lemma erase_toggle:
  "erase (fst (toggleNode_h n path nxt)) = toggleNode (erase n) path"
  "map erase (fst (toggleNodes_h ns path nxt)) = map (\<lambda>n. toggleNode n path) (map erase ns)"
  by (induction n path nxt and ns path nxt rule: toggleNode_h_toggleNodes_h.induct)
     (auto split: prod.splits)

lemma files_toggle:
  "file_objects (fst (toggleNode_h n path nxt)) = file_objects n"
  "concat (map file_objects (fst (toggleNodes_h ns path nxt))) = concat (map file_objects ns)"
  by (induction n path nxt and ns path nxt rule: toggleNode_h_toggleNodes_h.induct)
     (auto split: prod.splits)

lemma target_children_toggle:
  "target_children path (fst (toggleNode_h n path nxt)) = target_children path n"
  "concat (map (target_children path) (fst (toggleNodes_h ns path nxt))) = concat (map (target_children path) ns)"
  by (induction n path nxt and ns path nxt rule: toggleNode_h_toggleNodes_h.induct)
     (auto split: prod.splits)

lemma nxt_mono:
  "nxt \<le> snd (toggleNode_h n path nxt)"
  "nxt \<le> snd (toggleNodes_h ns path nxt)"
  by (induction n path nxt and ns path nxt rule: toggleNode_h_toggleNodes_h.induct)
     (auto split: prod.splits)

lemma outer_fresh:
  "set (outer_dir_ids path (fst (toggleNode_h n path nxt))) \<subseteq> {nxt ..< snd (toggleNode_h n path nxt)}"
  "set (concat (map (outer_dir_ids path) (fst (toggleNodes_h ns path nxt)))) \<subseteq> {nxt ..< snd (toggleNodes_h ns path nxt)}"
proof (induction n path nxt and ns path nxt rule: toggleNode_h_toggleNodes_h.induct)
  case (1 a nm p s path nxt)
  show ?case by simp
next
  case (2 a nm p e ch path nxt)
  show ?case
  proof (cases "p = path")
    case True
    then show ?thesis by simp
  next
    case False
    obtain ch' n1 where c: "toggleNodes_h ch path (Suc nxt) = (ch', n1)"
      by (cases "toggleNodes_h ch path (Suc nxt)")
    from "2.IH" [OF False] c
    have "set (concat (map (outer_dir_ids path) ch')) \<subseteq> {Suc nxt ..< n1}" by simp
    then have "set (concat (map (outer_dir_ids path) ch')) \<subseteq> {nxt ..< n1}"
      by (rule order_trans) auto
    moreover from nxt_mono(2) [of "Suc nxt" ch path] c have "nxt < n1" by simp
    ultimately show ?thesis using False c by simp
  qed
next
  case (3 path nxt)
  show ?case by simp
next
  case (4 n ns path nxt)
  obtain n' n1 where a: "toggleNode_h n path nxt = (n', n1)" by (cases "toggleNode_h n path nxt")
  obtain ns' n2 where b: "toggleNodes_h ns path n1 = (ns', n2)" by (cases "toggleNodes_h ns path n1")
  from "4.IH"(1) a have 1: "set (outer_dir_ids path n') \<subseteq> {nxt ..< n1}" by simp
  from "4.IH"(2) [OF a [symmetric]] b
  have 2: "set (concat (map (outer_dir_ids path) ns')) \<subseteq> {n1 ..< n2}" by simp
  from nxt_mono(1) [of nxt n path] a have "nxt \<le> n1" by simp
  moreover from nxt_mono(2) [of n1 ns path] b have "n1 \<le> n2" by simp
  ultimately show ?case using 1 2 a b by auto
qed

subsection \<open>Toggling with object identity\<close>

lemma toggleNode_no_target: "\<not> has_dir_path path n \<Longrightarrow> toggleNode n path = n"
proof (induction n)
  case (FileNode nm p s)
  show ?case by simp
next
  case (DirNode nm p e ch)
  from DirNode.prems have np: "p \<noteq> path" and nc: "\<forall>c\<in>set ch. \<not> has_dir_path path c"
    by (simp_all add: list_ex_iff)
  with DirNode.IH have "map (\<lambda>c. toggleNode c path) ch = ch" by (simp add: map_idI)
  with np show ?case by simp
qed

lemma toggleDir_no_target:
  "\<not> list_ex (has_dir_path path) forest \<Longrightarrow> toggleDir forest path = forest"
  by (simp add: toggleDir_def list_ex_iff toggleNode_no_target map_idI)

text \<open>
  C4, as the code has it. With objects and their addresses, \<^verbatim>\<open>toggleDir\<close> returns a
  forest whose value is that of the value-level \<^verbatim>\<open>toggleDir\<close>; the file objects of
  the new forest are the file objects of the old one, and so are the children arrays of
  the directories whose \<^verbatim>\<open>path\<close> is the target (what lies beneath a toggled
  directory is shared, not copied); every directory object that the traversal reaches,
  the target and every directory not beneath a target, on the way to it or not, has a
  fresh address, that of no object of the old forest (all of which lie below the next
  free address); and when no directory node has the target path, the new forest has
  the value of the old one. No branch of the function throws.
\<close>

theorem toggleDir_h_frame:
  "map erase (fst (toggleDir_h forest path nxt)) = toggleDir (map erase forest) path \<and>
   forest_file_objects (fst (toggleDir_h forest path nxt)) = forest_file_objects forest \<and>
   forest_target_children path (fst (toggleDir_h forest path nxt)) =
     forest_target_children path forest \<and>
   ((\<forall>a\<in>set (forest_ids forest). a < nxt) \<longrightarrow>
      set (forest_outer_dir_ids path (fst (toggleDir_h forest path nxt))) \<inter>
      set (forest_ids forest) = {}) \<and>
   (\<not> list_ex (has_dir_path path) (map erase forest) \<longrightarrow>
      map erase (fst (toggleDir_h forest path nxt)) = map erase forest)"
proof -
  have v: "map erase (fst (toggleDir_h forest path nxt)) = toggleDir (map erase forest) path"
    by (simp add: toggleDir_h_def toggleDir_def erase_toggle(2))
  have f: "forest_file_objects (fst (toggleDir_h forest path nxt)) = forest_file_objects forest"
    by (simp add: toggleDir_h_def forest_file_objects_def files_toggle(2))
  have t: "forest_target_children path (fst (toggleDir_h forest path nxt)) =
     forest_target_children path forest"
    by (simp add: toggleDir_h_def forest_target_children_def target_children_toggle(2))
  have o: "set (forest_outer_dir_ids path (fst (toggleDir_h forest path nxt))) \<inter>
      set (forest_ids forest) = {}" if "\<forall>a\<in>set (forest_ids forest). a < nxt"
  proof -
    have "set (forest_outer_dir_ids path (fst (toggleDir_h forest path nxt)))
           \<subseteq> {nxt ..< snd (toggleNodes_h forest path nxt)}"
      unfolding toggleDir_h_def forest_outer_dir_ids_def by (rule outer_fresh(2))
    with that show ?thesis by fastforce
  qed
  have n: "map erase (fst (toggleDir_h forest path nxt)) = map erase forest"
    if "\<not> list_ex (has_dir_path path) (map erase forest)"
    using that v by (simp add: toggleDir_no_target)
  from v f t o n show ?thesis by blast
qed

theorem toggleDir_h_frame_witness:
  "list_all (\<lambda>a. a < 3) (forest_ids [ODir 0 ''a'' ''a'' True [OFile 1 ''b.js'' ''a/b.js'' 10],
                           ODir 2 ''c'' ''c'' True []]) \<and>
   \<not> list_ex (has_dir_path ''zzz'') (map erase [ODir 0 ''a'' ''a'' True [OFile 1 ''b.js'' ''a/b.js'' 10],
                           ODir 2 ''c'' ''c'' True []]) \<and>
   set (forest_outer_dir_ids ''zzz'' (fst (toggleDir_h
      [ODir 0 ''a'' ''a'' True [OFile 1 ''b.js'' ''a/b.js'' 10], ODir 2 ''c'' ''c'' True []]
      ''zzz'' 3))) \<inter>
   set (forest_ids [ODir 0 ''a'' ''a'' True [OFile 1 ''b.js'' ''a/b.js'' 10],
                    ODir 2 ''c'' ''c'' True []]) = {} \<and>
   map erase (fst (toggleDir_h
      [ODir 0 ''a'' ''a'' True [OFile 1 ''b.js'' ''a/b.js'' 10], ODir 2 ''c'' ''c'' True []]
      ''zzz'' 3)) =
   map erase [ODir 0 ''a'' ''a'' True [OFile 1 ''b.js'' ''a/b.js'' 10], ODir 2 ''c'' ''c'' True []]"
proof -
  have h1: "\<forall>a\<in>set (forest_ids [ODir 0 ''a'' ''a'' True [OFile 1 ''b.js'' ''a/b.js'' 10],
                           ODir 2 ''c'' ''c'' True []]). a < 3"
    by (simp add: forest_ids_def)
  have h2: "\<not> list_ex (has_dir_path ''zzz'') (map erase [ODir 0 ''a'' ''a'' True [OFile 1 ''b.js'' ''a/b.js'' 10],
                           ODir 2 ''c'' ''c'' True []])"
    by simp
  have h3: "list_all (\<lambda>a. a < 3) (forest_ids [ODir 0 ''a'' ''a'' True [OFile 1 ''b.js'' ''a/b.js'' 10],
                           ODir 2 ''c'' ''c'' True []])"
    by (simp add: forest_ids_def)
  from h1 h2 h3 toggleDir_h_frame
    [of "[ODir 0 ''a'' ''a'' True [OFile 1 ''b.js'' ''a/b.js'' 10], ODir 2 ''c'' ''c'' True []]"
        "''zzz''" 3]
  show ?thesis by blast
qed

text \<open>
  C4, as stated, fails: toggling \<^verbatim>\<open>a\<close> in a forest of two sibling directories
  \<^verbatim>\<open>a\<close> (object 0) and \<^verbatim>\<open>b\<close> (object 1) returns \<^verbatim>\<open>b\<close> as a new object, at
  address 3, although \<^verbatim>\<open>b\<close> is neither the target nor one of its ancestors; the old
  object is not in the new forest.
\<close>

theorem toggleDir_h_copies_sibling:
  "fst (toggleDir_h [ODir 0 ''a'' ''a'' True [], ODir 1 ''b'' ''b'' True []] ''a'' 2) =
     [ODir 2 ''a'' ''a'' False [], ODir 3 ''b'' ''b'' True []] \<and>
   ODir 1 ''b'' ''b'' True [] \<notin>
     set (fst (toggleDir_h [ODir 0 ''a'' ''a'' True [], ODir 1 ''b'' ''b'' True []] ''a'' 2))"
  by (simp add: toggleDir_h_def)

section \<open>Properties of the Backend Gateway Client\<close>

subsection \<open>Failure normalization\<close>

lemma strip_leading_Nil [simp]: "strip_leading ws [] = []"
proof -
  have "lead_len ws [] = 0" by (induction ws) auto
  then show ?thesis by (simp add: strip_leading.simps)
qed

lemma js_trim_Nil [simp]: "js_trim [] = []"
  by (simp add: js_trim_def)

lemma js_trim_examples:
  "js_trim ''Repository not found'' = ''Repository not found''"
  "js_trim '' Repository not found '' = ''Repository not found''"
  "js_trim '' upstream down  '' = ''upstream down''"
  "js_trim ''  '' = []"
  "js_trim ''   '' = []"
  "js_trim [CHR 0x0A] = []"
  "js_trim [CHR 0xC2, CHR 0xA0] = []"
  "js_trim ([CHR 0xEF, CHR 0xBB, CHR 0xBF] @ ''upstream down'' @ [CHR 0xC2, CHR 0xA0]) = ''upstream down''"
  by code_simp+

lemma body_detail_eq:
  "js_or (js_or (js_or (js_get data ''detail'') (js_get data ''message'')) (js_get data ''error''))
         (js_get data ''msg'') = body_detail data"
  by (simp add: js_or_def body_detail_def)

lemma status_line_eq:
  "js_String (js_or (js_get r ''status'') (Str ''Unknown'')) @ '' '' @
   js_String (js_or (js_get r ''statusText'') (Str ''Unknown Error'')) = status_line r"
  by (simp add: js_or_def status_line_def)

lemma normalize_response:
  "truthy (js_get err ''response'') \<Longrightarrow>
   normalizeAxiosError err =
     (let data = js_get (js_get err ''response'') ''data'' in
      if truthy data \<and> js_typeof data = ''object'' then
        (if truthy (body_detail data) \<and> js_typeof (body_detail data) = ''string''
            \<and> js_trim (js_String (body_detail data)) \<noteq> []
         then Error (js_trim (js_String (body_detail data)))
         else Error (status_line (js_get err ''response'')))
      else if truthy data \<and> js_typeof data = ''string'' \<and> js_trim (js_String data) \<noteq> []
        then Error (js_trim (js_String data))
      else Error (status_line (js_get err ''response'')))"
  unfolding normalizeAxiosError_def Let_def body_detail_eq status_line_eq by simp

lemma typeof_string: "js_typeof v = ''string'' \<longleftrightarrow> (\<exists>s. v = Str s)"
  by (cases v) simp_all

lemma normalize_string_body:
  assumes "truthy (js_get err ''response'')"
    and "js_get (js_get err ''response'') ''data'' = Str s"
  shows "normalizeAxiosError err =
    (if js_trim s \<noteq> [] then Error (js_trim s) else Error (status_line (js_get err ''response'')))"
proof (cases "js_trim s = []")
  case True
  with assms show ?thesis by (simp add: normalize_response Let_def)
next
  case False
  then have "s \<noteq> []" by auto
  with assms False show ?thesis by (simp add: normalize_response Let_def)
qed

text \<open>
  C7, as the code has it. Failure normalization gives one error for each shape of the
  value caught:
  \<^item> it carries a response whose body is an object: the first truthy one of the body's
    \<^verbatim>\<open>detail\<close>, \<^verbatim>\<open>message\<close>, \<^verbatim>\<open>error\<close>, \<^verbatim>\<open>msg\<close> fields is looked at, and when
    it is a string that is not empty after trimming, the message is that string,
    trimmed; otherwise the message is \<^verbatim>\<open>"{status} {statusText}"\<close>, a missing or zero
    status reading \<^verbatim>\<open>Unknown\<close> and a missing or empty status text reading
    \<^verbatim>\<open>Unknown Error\<close>;
  \<^item> it carries a response whose body is a string: the message is the string, trimmed,
    when that is not empty, and the status text otherwise;
  \<^item> it carries a response whose body is anything else (an array, a number, a Boolean,
    \<^verbatim>\<open>null\<close>, or no body): the message is the status text;
  \<^item> it carries no response but a request: the message is exactly
    \<^verbatim>\<open>Network error: backend unreachable\<close>;
  \<^item> anything else: its \<^verbatim>\<open>message\<close>, as a string, when that is truthy; else, when the
    value is truthy and not an object, the value itself as a string; else exactly
    \<^verbatim>\<open>Unknown error occurred\<close>.
  A 404 response with the body \<^verbatim>\<open>{"detail":"Repository not found"}\<close> gives exactly
  the message \<^verbatim>\<open>Repository not found\<close>.
\<close>

theorem normalizeAxiosError_shapes:
  "(truthy (js_get err ''response'') \<and> js_get (js_get err ''response'') ''data'' = Obj body \<and>
      body_detail (Obj body) = Str d \<and> js_trim d \<noteq> []
      \<longrightarrow> normalizeAxiosError err = Error (js_trim d)) \<and>
   (truthy (js_get err ''response'') \<and> js_get (js_get err ''response'') ''data'' = Obj body \<and>
      (\<forall>d. body_detail (Obj body) = Str d \<longrightarrow> js_trim d = [])
      \<longrightarrow> normalizeAxiosError err = Error (status_line (js_get err ''response''))) \<and>
   (truthy (js_get err ''response'') \<and> js_get (js_get err ''response'') ''data'' = Str s \<and>
      js_trim s \<noteq> []
      \<longrightarrow> normalizeAxiosError err = Error (js_trim s)) \<and>
   (truthy (js_get err ''response'') \<and> js_get (js_get err ''response'') ''data'' = Str s \<and>
      js_trim s = []
      \<longrightarrow> normalizeAxiosError err = Error (status_line (js_get err ''response''))) \<and>
   (truthy (js_get err ''response'') \<and>
      (\<forall>kvs. js_get (js_get err ''response'') ''data'' \<noteq> Obj kvs) \<and>
      (\<forall>t. js_get (js_get err ''response'') ''data'' \<noteq> Str t)
      \<longrightarrow> normalizeAxiosError err = Error (status_line (js_get err ''response''))) \<and>
   (\<not> truthy (js_get err ''response'') \<and> truthy (js_get err ''request'')
      \<longrightarrow> normalizeAxiosError err = Error ''Network error: backend unreachable'') \<and>
   (\<not> truthy (js_get err ''response'') \<and> \<not> truthy (js_get err ''request'') \<and>
      truthy (js_get err ''message'')
      \<longrightarrow> normalizeAxiosError err = Error (js_String (js_get err ''message''))) \<and>
   (\<not> truthy (js_get err ''response'') \<and> \<not> truthy (js_get err ''request'') \<and>
      \<not> truthy (js_get err ''message'') \<and> truthy err \<and> js_typeof err \<noteq> ''object''
      \<longrightarrow> normalizeAxiosError err = Error (js_String err)) \<and>
   (\<not> truthy (js_get err ''response'') \<and> \<not> truthy (js_get err ''request'') \<and>
      \<not> truthy (js_get err ''message'') \<and> (js_typeof err = ''object'' \<or> \<not> truthy err)
      \<longrightarrow> normalizeAxiosError err = Error ''Unknown error occurred'') \<and>
   normalizeAxiosError
     (Obj [(''response'', Obj [(''status'', Num 404), (''statusText'', Str ''Not Found''),
                               (''data'', Obj [(''detail'', Str ''Repository not found'')])])])
     = Error ''Repository not found''"
proof -
  have a1: "normalizeAxiosError err = Error (js_trim d)"
    if "truthy (js_get err ''response'')" "js_get (js_get err ''response'') ''data'' = Obj body"
       "body_detail (Obj body) = Str d" "js_trim d \<noteq> []"
  proof -
    from that(4) have "d \<noteq> []" by auto
    with that show ?thesis by (simp add: normalize_response Let_def)
  qed
  have a2: "normalizeAxiosError err = Error (status_line (js_get err ''response''))"
    if "truthy (js_get err ''response'')" "js_get (js_get err ''response'') ''data'' = Obj body"
       "\<forall>d. body_detail (Obj body) = Str d \<longrightarrow> js_trim d = []"
    using that by (auto simp: normalize_response typeof_string Let_def)
  have a3: "normalizeAxiosError err = Error (js_trim s)"
    if "truthy (js_get err ''response'')" "js_get (js_get err ''response'') ''data'' = Str s"
       "js_trim s \<noteq> []"
    using that by (simp add: normalize_string_body)
  have a4: "normalizeAxiosError err = Error (status_line (js_get err ''response''))"
    if "truthy (js_get err ''response'')" "js_get (js_get err ''response'') ''data'' = Str s"
       "js_trim s = []"
    using that by (simp add: normalize_string_body)
  have a5: "normalizeAxiosError err = Error (status_line (js_get err ''response''))"
    if r: "truthy (js_get err ''response'')"
      and o: "\<forall>kvs. js_get (js_get err ''response'') ''data'' \<noteq> Obj kvs"
      and t: "\<forall>t. js_get (js_get err ''response'') ''data'' \<noteq> Str t"
  proof (cases "js_get (js_get err ''response'') ''data''")
    case (Arr xs)
    with r show ?thesis by (simp add: normalize_response Let_def body_detail_def)
  next
    case (Obj kvs)
    with o show ?thesis by simp
  next
    case (Str u)
    with t show ?thesis by simp
  qed (use r in \<open>simp_all add: normalize_response Let_def\<close>)
  have b: "normalizeAxiosError err = Error ''Network error: backend unreachable''"
    if "\<not> truthy (js_get err ''response'')" "truthy (js_get err ''request'')"
    using that by (simp add: normalizeAxiosError_def)
  have c1: "normalizeAxiosError err = Error (js_String (js_get err ''message''))"
    if "\<not> truthy (js_get err ''response'')" "\<not> truthy (js_get err ''request'')"
       "truthy (js_get err ''message'')"
    using that by (simp add: normalizeAxiosError_def)
  have c2: "normalizeAxiosError err = Error (js_String err)"
    if "\<not> truthy (js_get err ''response'')" "\<not> truthy (js_get err ''request'')"
       "\<not> truthy (js_get err ''message'')" "truthy err" "js_typeof err \<noteq> ''object''"
    using that by (simp add: normalizeAxiosError_def)
  have c3: "normalizeAxiosError err = Error ''Unknown error occurred''"
    if "\<not> truthy (js_get err ''response'')" "\<not> truthy (js_get err ''request'')"
       "\<not> truthy (js_get err ''message'')" "js_typeof err = ''object'' \<or> \<not> truthy err"
    using that by (auto simp: normalizeAxiosError_def)
  have ex: "normalizeAxiosError
     (Obj [(''response'', Obj [(''status'', Num 404), (''statusText'', Str ''Not Found''),
                               (''data'', Obj [(''detail'', Str ''Repository not found'')])])])
     = Error ''Repository not found''"
    by (simp add: normalizeAxiosError_def js_or_def js_trim_examples)
  from a1 a2 a3 a4 a5 b c1 c2 c3 ex show ?thesis
    by (intro conjI impI) (elim conjE, assumption+)+
qed

theorem normalizeAxiosError_shapes_witness:
  "normalizeAxiosError
     (Obj [(''response'', Obj [(''status'', Num 404), (''statusText'', Str ''Not Found''),
                               (''data'', Obj [(''message'', Str '' Repository not found '')])])])
     = Error ''Repository not found'' \<and>
   normalizeAxiosError
     (Obj [(''response'', Obj [(''status'', Num 422), (''statusText'', Str ''Unprocessable Entity''),
                               (''data'', Obj [(''detail'', Arr [Obj [(''loc'', Str ''body'')]])])])])
     = Error ''422 Unprocessable Entity'' \<and>
   normalizeAxiosError
     (Obj [(''response'', Obj [(''status'', Num 400), (''statusText'', Str ''Bad Request''),
                               (''data'', Obj [(''detail'', Str [CHR 0xC2, CHR 0xA0])])])])
     = Error ''400 Bad Request'' \<and>
   normalizeAxiosError
     (Obj [(''response'', Obj [(''status'', Num 502), (''statusText'', Str ''Bad Gateway''),
                               (''data'', Str '' upstream down  '')])])
     = Error ''upstream down'' \<and>
   normalizeAxiosError
     (Obj [(''response'', Obj [(''status'', Num 502), (''statusText'', Str ''Bad Gateway''),
                               (''data'', Str [CHR 0xC2, CHR 0xA0])])])
     = Error ''502 Bad Gateway'' \<and>
   normalizeAxiosError
     (Obj [(''response'', Obj [(''status'', Num 500), (''statusText'', Str ''Internal Server Error''),
                               (''data'', Arr [Str ''boom''])])])
     = Error ''500 Internal Server Error'' \<and>
   normalizeAxiosError
     (Obj [(''response'', Obj [(''status'', Num 503), (''statusText'', Str ''Service Unavailable'')])])
     = Error ''503 Service Unavailable'' \<and>
   normalizeAxiosError (Obj [(''message'', Str ''Network Error''), (''request'', Obj [])])
     = Error ''Network error: backend unreachable'' \<and>
   normalizeAxiosError (Obj [(''message'', Str ''n is not iterable'')]) = Error ''n is not iterable'' \<and>
   normalizeAxiosError (Str ''boom'') = Error ''boom'' \<and>
   normalizeAxiosError Null = Error ''Unknown error occurred''"
proof -
  note ev = body_detail_def status_line_def int_digits_def nat_digits.simps digit_char_def
    js_trim_examples
  have 1: "normalizeAxiosError
     (Obj [(''response'', Obj [(''status'', Num 404), (''statusText'', Str ''Not Found''),
                               (''data'', Obj [(''message'', Str '' Repository not found '')])])])
     = Error ''Repository not found''"
    using normalizeAxiosError_shapes
      [of "Obj [(''response'', Obj [(''status'', Num 404), (''statusText'', Str ''Not Found''),
                               (''data'', Obj [(''message'', Str '' Repository not found '')])])]"
          "[(''message'', Str '' Repository not found '')]" "'' Repository not found ''"]
    by (simp add: ev)
  have 2: "normalizeAxiosError
     (Obj [(''response'', Obj [(''status'', Num 422), (''statusText'', Str ''Unprocessable Entity''),
                               (''data'', Obj [(''detail'', Arr [Obj [(''loc'', Str ''body'')]])])])])
     = Error ''422 Unprocessable Entity''"
    using normalizeAxiosError_shapes
      [of "Obj [(''response'', Obj [(''status'', Num 422), (''statusText'', Str ''Unprocessable Entity''),
                               (''data'', Obj [(''detail'', Arr [Obj [(''loc'', Str ''body'')]])])])]"
          "[(''detail'', Arr [Obj [(''loc'', Str ''body'')]])]"]
    by (simp add: ev)
  have 3: "normalizeAxiosError
     (Obj [(''response'', Obj [(''status'', Num 400), (''statusText'', Str ''Bad Request''),
                               (''data'', Obj [(''detail'', Str [CHR 0xC2, CHR 0xA0])])])])
     = Error ''400 Bad Request''"
    using normalizeAxiosError_shapes
      [of "Obj [(''response'', Obj [(''status'', Num 400), (''statusText'', Str ''Bad Request''),
                               (''data'', Obj [(''detail'', Str [CHR 0xC2, CHR 0xA0])])])]"
          "[(''detail'', Str [CHR 0xC2, CHR 0xA0])]"]
    by (simp add: ev)
  have 4: "normalizeAxiosError
     (Obj [(''response'', Obj [(''status'', Num 502), (''statusText'', Str ''Bad Gateway''),
                               (''data'', Str '' upstream down  '')])])
     = Error ''upstream down''"
    using normalizeAxiosError_shapes
      [where err = "Obj [(''response'', Obj [(''status'', Num 502), (''statusText'', Str ''Bad Gateway''),
                               (''data'', Str '' upstream down  '')])]"
         and s = "'' upstream down  ''"]
    by (simp add: ev)
  have 5: "normalizeAxiosError
     (Obj [(''response'', Obj [(''status'', Num 502), (''statusText'', Str ''Bad Gateway''),
                               (''data'', Str [CHR 0xC2, CHR 0xA0])])])
     = Error ''502 Bad Gateway''"
    using normalizeAxiosError_shapes
      [where err = "Obj [(''response'', Obj [(''status'', Num 502), (''statusText'', Str ''Bad Gateway''),
                               (''data'', Str [CHR 0xC2, CHR 0xA0])])]"
         and s = "[CHR 0xC2, CHR 0xA0]"]
    by (simp add: ev)
  have 6: "normalizeAxiosError
     (Obj [(''response'', Obj [(''status'', Num 500), (''statusText'', Str ''Internal Server Error''),
                               (''data'', Arr [Str ''boom''])])])
     = Error ''500 Internal Server Error''"
    using normalizeAxiosError_shapes
      [of "Obj [(''response'', Obj [(''status'', Num 500), (''statusText'', Str ''Internal Server Error''),
                               (''data'', Arr [Str ''boom''])])]"]
    by (simp add: ev)
  have 7: "normalizeAxiosError
     (Obj [(''response'', Obj [(''status'', Num 503), (''statusText'', Str ''Service Unavailable'')])])
     = Error ''503 Service Unavailable''"
    using normalizeAxiosError_shapes
      [of "Obj [(''response'', Obj [(''status'', Num 503), (''statusText'', Str ''Service Unavailable'')])]"]
    by (simp add: ev)
  have 8: "normalizeAxiosError (Obj [(''message'', Str ''Network Error''), (''request'', Obj [])])
     = Error ''Network error: backend unreachable''"
    using normalizeAxiosError_shapes [of "Obj [(''message'', Str ''Network Error''), (''request'', Obj [])]"]
    by simp
  have 9: "normalizeAxiosError (Obj [(''message'', Str ''n is not iterable'')]) = Error ''n is not iterable''"
    using normalizeAxiosError_shapes [of "Obj [(''message'', Str ''n is not iterable'')]"]
    by simp
  have 10: "normalizeAxiosError (Str ''boom'') = Error ''boom''"
    using normalizeAxiosError_shapes [of "Str ''boom''"] by simp
  have 11: "normalizeAxiosError Null = Error ''Unknown error occurred''"
    using normalizeAxiosError_shapes [of Null] by simp
  show ?thesis by (intro conjI 1 2 3 4 5 6 7 8 9 10 11)
qed

text \<open>
  C7, as stated, fails in three places: a thrown string has no message and still does not
  give \<^verbatim>\<open>Unknown error occurred\<close>; a response with an empty status text does not give
  \<^verbatim>\<open>"{status} {statusText}"\<close>; and a body whose \<^verbatim>\<open>message\<close> field is present and
  non-empty gives the status text when a \<^verbatim>\<open>detail\<close> of white space stands before it.
\<close>

theorem normalizeAxiosError_counterexample:
  "normalizeAxiosError (Str ''boom'') = Error ''boom'' \<and>
   normalizeAxiosError
     (Obj [(''response'', Obj [(''status'', Num 404), (''statusText'', Str []), (''data'', Obj [])])])
     = Error ''404 Unknown Error'' \<and>
   normalizeAxiosError
     (Obj [(''response'', Obj [(''status'', Num 500), (''statusText'', Str ''Internal Server Error''),
                               (''data'', Obj [(''detail'', Str ''  ''), (''message'', Str ''boom'')])])])
     = Error ''500 Internal Server Error''"
  by (simp add: normalizeAxiosError_def js_or_def js_trim_examples
        int_digits_def nat_digits.simps digit_char_def)

text \<open>
  C10, as the code has it. For every caught value carrying a response whose body is a
  string that is not empty after trimming, the message of the normalized error is
  exactly that string with the surrounding white space trimmed; when the string is
  empty after trimming, the message is the status text.
\<close>

theorem string_body_message:
  "(truthy (js_get err ''response'') \<and> js_get (js_get err ''response'') ''data'' = Str s \<and>
      js_trim s \<noteq> []
      \<longrightarrow> normalizeAxiosError err = Error (js_trim s)) \<and>
   (truthy (js_get err ''response'') \<and> js_get (js_get err ''response'') ''data'' = Str s \<and>
      js_trim s = []
      \<longrightarrow> normalizeAxiosError err = Error (status_line (js_get err ''response'')))"
proof -
  have 1: "normalizeAxiosError err = Error (js_trim s)"
    if "truthy (js_get err ''response'')" "js_get (js_get err ''response'') ''data'' = Str s"
       "js_trim s \<noteq> []"
    using that by (simp add: normalize_string_body)
  have 2: "normalizeAxiosError err = Error (status_line (js_get err ''response''))"
    if "truthy (js_get err ''response'')" "js_get (js_get err ''response'') ''data'' = Str s"
       "js_trim s = []"
    using that by (simp add: normalize_string_body)
  from 1 2 show ?thesis
    by (intro conjI impI) (elim conjE, assumption+)+
qed

theorem string_body_message_witness:
  "normalizeAxiosError
     (Obj [(''response'', Obj [(''status'', Num 502), (''statusText'', Str ''Bad Gateway''),
                               (''data'', Str ([CHR 0xEF, CHR 0xBB, CHR 0xBF] @ ''upstream down''
                                               @ [CHR 0xC2, CHR 0xA0]))])])
     = Error ''upstream down'' \<and>
   normalizeAxiosError
     (Obj [(''response'', Obj [(''status'', Num 502), (''statusText'', Str ''Bad Gateway''),
                               (''data'', Str [CHR 0x0A])])])
     = Error ''502 Bad Gateway'' \<and>
   normalizeAxiosError
     (Obj [(''response'', Obj [(''status'', Num 500), (''statusText'', Str ''Internal Server Error''),
                               (''data'', Str [CHR 0xC2, CHR 0xA0])])])
     = Error ''500 Internal Server Error''"
proof -
  note ev = status_line_def int_digits_def nat_digits.simps digit_char_def js_trim_examples
  have 1: "normalizeAxiosError
     (Obj [(''response'', Obj [(''status'', Num 502), (''statusText'', Str ''Bad Gateway''),
                               (''data'', Str ([CHR 0xEF, CHR 0xBB, CHR 0xBF] @ ''upstream down''
                                               @ [CHR 0xC2, CHR 0xA0]))])])
     = Error ''upstream down''"
    using string_body_message
      [of "Obj [(''response'', Obj [(''status'', Num 502), (''statusText'', Str ''Bad Gateway''),
                               (''data'', Str ([CHR 0xEF, CHR 0xBB, CHR 0xBF] @ ''upstream down''
                                               @ [CHR 0xC2, CHR 0xA0]))])]"
          "[CHR 0xEF, CHR 0xBB, CHR 0xBF] @ ''upstream down'' @ [CHR 0xC2, CHR 0xA0]"]
      js_trim_examples(8)
    by (simp del: append.simps append_Cons)
  have 2: "normalizeAxiosError
     (Obj [(''response'', Obj [(''status'', Num 502), (''statusText'', Str ''Bad Gateway''),
                               (''data'', Str [CHR 0x0A])])])
     = Error ''502 Bad Gateway''"
    using string_body_message
      [of "Obj [(''response'', Obj [(''status'', Num 502), (''statusText'', Str ''Bad Gateway''),
                               (''data'', Str [CHR 0x0A])])]" "[CHR 0x0A]"]
    by (simp add: ev)
  have 3: "normalizeAxiosError
     (Obj [(''response'', Obj [(''status'', Num 500), (''statusText'', Str ''Internal Server Error''),
                               (''data'', Str [CHR 0xC2, CHR 0xA0])])])
     = Error ''500 Internal Server Error''"
    using string_body_message
      [of "Obj [(''response'', Obj [(''status'', Num 500), (''statusText'', Str ''Internal Server Error''),
                               (''data'', Str [CHR 0xC2, CHR 0xA0])])]" "[CHR 0xC2, CHR 0xA0]"]
    by (simp add: ev)
  show ?thesis by (intro conjI 1 2 3)
qed

text \<open>
  C10, as stated, fails for a non-empty body of white space only: the message is the
  status text, not the trimmed (empty) string.
\<close>

theorem blank_string_body_counterexample:
  "normalizeAxiosError
     (Obj [(''response'', Obj [(''status'', Num 500), (''statusText'', Str ''Internal Server Error''),
                               (''data'', Str ''   '')])])
     = Error ''500 Internal Server Error''"
  by (simp add: normalizeAxiosError_def js_or_def js_trim_examples
        int_digits_def nat_digits.simps digit_char_def)

subsection \<open>Local validation\<close>

lemma blank_text_falsy: "blank_text v \<Longrightarrow> \<not> truthy v"
  by (auto simp: blank_text_def)

lemma blank_list_not_array: "blank_list v \<Longrightarrow> not_nonempty_array v"
  by (auto simp: blank_list_def)

text \<open>
  C6. Each of the six gateway functions with required arguments fails with a local
  validation error, one of its own descriptive messages, and leaves the list of requests
  made as it was, so that no network call is issued, whenever one of its required
  arguments is missing or empty. This holds for every network. In particular
  \<^verbatim>\<open>fetchRepoFiles("", "repo")\<close> fails with
  \<^verbatim>\<open>Owner and repository name are required\<close> and makes no request.
\<close>

theorem local_validation:
  "(blank_text owner \<or> blank_text repo \<longrightarrow>
      validation_failure [''Owner and repository name are required''] log
        (fetchRepoFiles net env owner repo log)) \<and>
   (blank_text owner \<or> blank_text repo \<or> blank_list paths \<longrightarrow>
      validation_failure [''Owner and repository name are required'',
                          ''File paths array is required and must not be empty''] log
        (fetchFileContents net env owner repo paths log)) \<and>
   (blank_list fileContents \<longrightarrow>
      validation_failure [''File contents array is required and must not be empty''] log
        (summarizeTestsWithContent net env fileContents framework log)) \<and>
   (blank_text owner \<or> blank_text repo \<or> blank_list paths \<longrightarrow>
      validation_failure [''Owner and repository name are required'',
                          ''File paths array is required and must not be empty''] log
        (summarizeTests net env owner repo paths framework log)) \<and>
   (blank_text fileContent \<or> blank_text summary \<longrightarrow>
      validation_failure [''File content is required'', ''Summary is required''] log
        (generateCode net env fileContent summary framework log)) \<and>
   (blank_text fileName \<or> blank_text fileContent \<or> blank_text scenario \<longrightarrow>
      validation_failure [''File name is required'', ''File content is required'',
                          ''Scenario is required''] log
        (generateTest net env fileName fileContent scenario log)) \<and>
   fetchRepoFiles net env (Str []) (Str ''repo'') log =
     (Inl (Error ''Owner and repository name are required''), log)"
proof -
  have 1: "validation_failure [''Owner and repository name are required''] log
        (fetchRepoFiles net env owner repo log)" if "blank_text owner \<or> blank_text repo"
    using that blank_text_falsy by (auto simp: fetchRepoFiles_def)
  have 2: "validation_failure [''Owner and repository name are required'',
                          ''File paths array is required and must not be empty''] log
        (fetchFileContents net env owner repo paths log)"
    if "blank_text owner \<or> blank_text repo \<or> blank_list paths"
    using that blank_text_falsy blank_list_not_array by (auto simp: fetchFileContents_def)
  have 3: "validation_failure [''File contents array is required and must not be empty''] log
        (summarizeTestsWithContent net env fileContents framework log)"
    if "blank_list fileContents"
    using that blank_list_not_array by (auto simp: summarizeTestsWithContent_def)
  have 4: "validation_failure [''Owner and repository name are required'',
                          ''File paths array is required and must not be empty''] log
        (summarizeTests net env owner repo paths framework log)"
    if "blank_text owner \<or> blank_text repo \<or> blank_list paths"
    using that blank_text_falsy blank_list_not_array by (auto simp: summarizeTests_def)
  have 5: "validation_failure [''File content is required'', ''Summary is required''] log
        (generateCode net env fileContent summary framework log)"
    if "blank_text fileContent \<or> blank_text summary"
    using that blank_text_falsy by (auto simp: generateCode_def)
  have 6: "validation_failure [''File name is required'', ''File content is required'',
                          ''Scenario is required''] log
        (generateTest net env fileName fileContent scenario log)"
    if "blank_text fileName \<or> blank_text fileContent \<or> blank_text scenario"
    using that blank_text_falsy by (auto simp: generateTest_def)
  have 7: "fetchRepoFiles net env (Str []) (Str ''repo'') log =
     (Inl (Error ''Owner and repository name are required''), log)"
    by (simp add: fetchRepoFiles_def)
  from 1 2 3 4 5 6 7 show ?thesis by blast
qed

theorem local_validation_witness:
  "validation_failure [''Owner and repository name are required''] []
     (fetchRepoFiles unreachable None (Str ''octocat'') Undefined []) \<and>
   validation_failure [''Owner and repository name are required'',
                       ''File paths array is required and must not be empty''] []
     (fetchFileContents unreachable None (Str ''octocat'') (Str ''hello'') (Arr []) []) \<and>
   validation_failure [''File contents array is required and must not be empty''] []
     (summarizeTestsWithContent unreachable None Null Undefined []) \<and>
   validation_failure [''Owner and repository name are required'',
                       ''File paths array is required and must not be empty''] []
     (summarizeTests unreachable None (Str []) (Str ''hello'') (Arr [Str ''a.py'']) Undefined []) \<and>
   validation_failure [''File content is required'', ''Summary is required''] []
     (generateCode unreachable None (Str ''print(1)'') (Str []) Undefined []) \<and>
   validation_failure [''File name is required'', ''File content is required'',
                       ''Scenario is required''] []
     (generateTest unreachable None (Str ''a.py'') (Str ''print(1)'') Null [])"
proof -
  have b: "blank_text Undefined" "blank_text Null" "blank_text (Str [])"
          "blank_list (Arr [])" "blank_list Null"
    by (simp_all add: blank_text_def blank_list_def)
  have 1: "validation_failure [''Owner and repository name are required''] []
     (fetchRepoFiles unreachable None (Str ''octocat'') Undefined [])"
    using b local_validation [of "Str ''octocat''" Undefined] by blast
  have 2: "validation_failure [''Owner and repository name are required'',
                       ''File paths array is required and must not be empty''] []
     (fetchFileContents unreachable None (Str ''octocat'') (Str ''hello'') (Arr []) [])"
    using b local_validation [of "Str ''octocat''" "Str ''hello''" _ _ _ "Arr []"] by blast
  have 3: "validation_failure [''File contents array is required and must not be empty''] []
     (summarizeTestsWithContent unreachable None Null Undefined [])"
    using b local_validation [of _ _ _ _ _ _ Null] by blast
  have 4: "validation_failure [''Owner and repository name are required'',
                       ''File paths array is required and must not be empty''] []
     (summarizeTests unreachable None (Str []) (Str ''hello'') (Arr [Str ''a.py'']) Undefined [])"
    using b local_validation [of "Str []" "Str ''hello''"] by blast
  have 5: "validation_failure [''File content is required'', ''Summary is required''] []
     (generateCode unreachable None (Str ''print(1)'') (Str []) Undefined [])"
    using b local_validation [of _ _ _ _ _ _ _ _ "Str ''print(1)''" "Str []"] by blast
  have 6: "validation_failure [''File name is required'', ''File content is required'',
                       ''Scenario is required''] []
     (generateTest unreachable None (Str ''a.py'') (Str ''print(1)'') Null [])"
    using b local_validation [where fileName = "Str ''a.py''" and fileContent = "Str ''print(1)''" and scenario = Null]
    by blast
  from 1 2 3 4 5 6 show ?thesis by blast
qed

subsection \<open>Health probing\<close>

lemma probe3:
  "probe net [u1, u2, u3] log =
     (let r1 = Get u1 3000; r2 = Get u2 3000; r3 = Get u3 3000;
          a1 = answers_200 (net log r1);
          a2 = answers_200 (net (log @ [r1]) r2);
          a3 = answers_200 (net (log @ [r1, r2]) r3)
      in (a1 \<or> a2 \<or> a3,
          log @ (if a1 then [r1] else if a2 then [r1, r2] else [r1, r2, r3])))"
  by (simp add: Let_def split: sum.splits)

text \<open>
  C9. \<^verbatim>\<open>checkBackendHealth\<close> asks the three candidate endpoints in their fixed
  order, each with the requests before it already made; it never throws; its result is
  true exactly when one of the candidates asked answers HTTP 200, hence false exactly
  when all three fail; and the requests it makes stop with the first candidate that
  answers 200. When the first request is rejected (a timeout, say) and the second
  answers 200, the result is true.
\<close>

theorem checkBackendHealth_probes:
  "checkBackendHealth net env log =
     (let r1 = Get (baseRoot env @ ''/health'') 3000;
          r2 = Get (BASE env @ ''/repos/health'') 3000;
          r3 = Get (BASE env @ ''/ai/health'') 3000;
          a1 = answers_200 (net log r1);
          a2 = answers_200 (net (log @ [r1]) r2);
          a3 = answers_200 (net (log @ [r1, r2]) r3)
      in (Inr (a1 \<or> a2 \<or> a3),
          log @ (if a1 then [r1] else if a2 then [r1, r2] else [r1, r2, r3]))) \<and>
   (net log (Get (baseRoot env @ ''/health'') 3000) = Inl err \<and>
    answers_200 (net (log @ [Get (baseRoot env @ ''/health'') 3000])
                     (Get (BASE env @ ''/repos/health'') 3000))
    \<longrightarrow> fst (checkBackendHealth net env log) = Inr True)"
proof -
  have g: "checkBackendHealth net env log =
     (let r1 = Get (baseRoot env @ ''/health'') 3000;
          r2 = Get (BASE env @ ''/repos/health'') 3000;
          r3 = Get (BASE env @ ''/ai/health'') 3000;
          a1 = answers_200 (net log r1);
          a2 = answers_200 (net (log @ [r1]) r2);
          a3 = answers_200 (net (log @ [r1, r2]) r3)
      in (Inr (a1 \<or> a2 \<or> a3),
          log @ (if a1 then [r1] else if a2 then [r1, r2] else [r1, r2, r3])))"
    unfolding checkBackendHealth_def candidates_def probe3 by (simp add: Let_def)
  have "fst (checkBackendHealth net env log) = Inr True"
    if "answers_200 (net (log @ [Get (baseRoot env @ ''/health'') 3000])
                     (Get (BASE env @ ''/repos/health'') 3000))"
    using that by (simp add: g Let_def)
  with g show ?thesis by blast
qed

theorem checkBackendHealth_probes_witness:
  "checkBackendHealth late_backend None [] =
     (Inr True, [Get ''http://localhost:8000/health'' 3000,
                 Get ''http://localhost:8000/api/v1/repos/health'' 3000]) \<and>
   checkBackendHealth unreachable (Some ''https://api.example.org'') [] =
     (Inr False, [Get ''https://api.example.org/health'' 3000,
                  Get ''https://api.example.org/repos/health'' 3000,
                  Get ''https://api.example.org/ai/health'' 3000])"
proof -
  have 1: "checkBackendHealth late_backend None [] =
     (Inr True, [Get ''http://localhost:8000/health'' 3000,
                 Get ''http://localhost:8000/api/v1/repos/health'' 3000])"
    using checkBackendHealth_probes [of late_backend None "[]" Null]
    by (simp add: late_backend_def baseRoot_def BASE_def js_endsWith_def Let_def)
  have 2: "checkBackendHealth unreachable (Some ''https://api.example.org'') [] =
     (Inr False, [Get ''https://api.example.org/health'' 3000,
                  Get ''https://api.example.org/repos/health'' 3000,
                  Get ''https://api.example.org/ai/health'' 3000])"
    using checkBackendHealth_probes [of unreachable "Some ''https://api.example.org''" "[]" Null]
    by (simp add: unreachable_def baseRoot_def BASE_def js_endsWith_def Let_def)
  from 1 2 show ?thesis by blast
qed

subsection \<open>Flattening the backend tree\<close>

lemma walk_loop_append:
  "walk_loop (ns @ ms) pfx =
     (case walk_loop ns pfx of
        Inl e \<Rightarrow> Inl e
      | Inr a \<Rightarrow> (case walk_loop ms pfx of Inl e \<Rightarrow> Inl e | Inr b \<Rightarrow> Inr (a @ b)))"
proof (induction ns)
  case Nil
  show ?case by (simp split: sum.splits)
next
  case (Cons n ns)
  show ?case
    by (simp only: append_Cons walk_loop.simps Cons.IH) (simp split: sum.splits)
qed

lemma walk_loop_single:
  "walk_loop [node] pfx =
     (if \<not> truthy node \<or> js_typeof node \<noteq> ''object'' then Inr []
      else if node_type node = Str ''file'' then Inr [file_entry node (full_name pfx node)]
      else if node_type node = Str ''dir'' \<or> node_type node = Str ''directory''
              \<or> truthy (js_get node ''children'')
        then walk (js_or (js_get node ''children'') (Arr [])) (full_name pfx node)
      else Inr [])"
  by (simp split: sum.splits)

lemma flatten_example:
  "flattenFiles (js_or (js_get example_tree ''files'') (Arr [])) (Str []) =
     Inr [Obj [(''path'', Str ''src/index.js''), (''size'', Num 1200)]]"
  by (simp add: example_tree_def flattenFiles_def js_or_def node_type_def file_entry_def full_name_def)

text \<open>
  C5, as the code has it. The effective type of a node is its \<^verbatim>\<open>type\<close> field, or its
  \<^verbatim>\<open>file_type\<close> field when \<^verbatim>\<open>type\<close> is missing or empty. Walking a node that is an
  object: when its effective type is exactly \<^verbatim>\<open>file\<close>, the node is emitted as one
  entry and not looked into; when it is not and the effective type is \<^verbatim>\<open>dir\<close> or
  \<^verbatim>\<open>directory\<close> or the node carries children, the walk is that of its children
  under its full name; any other node gives nothing. An element that is not an object
  is skipped. The walk of a sequence is the walks of its parts, one after the other. For
  the response \<^verbatim>\<open>{files:[{name:"src", type:"dir", children:[{name:"index.js",
  type:"file", path:"src/index.js", size:1200}]}]}\<close>, \<^verbatim>\<open>fetchRepoFiles\<close> resolves to
  \<^verbatim>\<open>[{path:"src/index.js", size:1200}]\<close>.
\<close>

theorem flattenFiles_nodes:
  "(truthy node \<and> js_typeof node = ''object'' \<and> node_type node = Str ''file'' \<longrightarrow>
      walk (Arr [node]) pfx = Inr [file_entry node (full_name pfx node)]) \<and>
   (truthy node \<and> js_typeof node = ''object'' \<and> node_type node \<noteq> Str ''file'' \<and>
    (node_type node = Str ''dir'' \<or> node_type node = Str ''directory''
       \<or> truthy (js_get node ''children'')) \<longrightarrow>
      walk (Arr [node]) pfx =
        walk (js_or (js_get node ''children'') (Arr [])) (full_name pfx node)) \<and>
   (truthy node \<and> js_typeof node = ''object'' \<and> node_type node \<noteq> Str ''file'' \<and>
    node_type node \<noteq> Str ''dir'' \<and> node_type node \<noteq> Str ''directory'' \<and>
    \<not> truthy (js_get node ''children'') \<longrightarrow>
      walk (Arr [node]) pfx = Inr []) \<and>
   (\<not> truthy node \<or> js_typeof node \<noteq> ''object'' \<longrightarrow> walk (Arr [node]) pfx = Inr []) \<and>
   walk (Arr (ns @ ms)) pfx =
     (case walk (Arr ns) pfx of
        Inl e \<Rightarrow> Inl e
      | Inr a \<Rightarrow> (case walk (Arr ms) pfx of Inl e \<Rightarrow> Inl e | Inr b \<Rightarrow> Inr (a @ b))) \<and>
   (truthy owner \<and> truthy repo \<and>
    net log (repoFilesRequest env owner repo) = Inr \<lparr>resp_status = 200, resp_data = example_tree\<rparr>
    \<longrightarrow> fst (fetchRepoFiles net env owner repo log) =
          Inr (Arr [Obj [(''path'', Str ''src/index.js''), (''size'', Num 1200)]]))"
proof -
  have 1: "walk (Arr [node]) pfx = Inr [file_entry node (full_name pfx node)]"
    if "truthy node" "js_typeof node = ''object''" "node_type node = Str ''file''"
    using that by (simp only: walk.simps walk_loop_single) simp
  have 2: "walk (Arr [node]) pfx =
        walk (js_or (js_get node ''children'') (Arr [])) (full_name pfx node)"
    if "truthy node" "js_typeof node = ''object''" "node_type node \<noteq> Str ''file''"
       "node_type node = Str ''dir'' \<or> node_type node = Str ''directory''
          \<or> truthy (js_get node ''children'')"
    using that by (simp only: walk.simps walk_loop_single) auto
  have 3: "walk (Arr [node]) pfx = Inr []"
    if "truthy node" "js_typeof node = ''object''" "node_type node \<noteq> Str ''file''"
       "node_type node \<noteq> Str ''dir''" "node_type node \<noteq> Str ''directory''"
       "\<not> truthy (js_get node ''children'')"
    using that by (simp only: walk.simps walk_loop_single) simp
  have 4: "walk (Arr [node]) pfx = Inr []" if "\<not> truthy node \<or> js_typeof node \<noteq> ''object''"
    using that by (simp only: walk.simps walk_loop_single) auto
  have 5: "walk (Arr (ns @ ms)) pfx =
     (case walk (Arr ns) pfx of
        Inl e \<Rightarrow> Inl e
      | Inr a \<Rightarrow> (case walk (Arr ms) pfx of Inl e \<Rightarrow> Inl e | Inr b \<Rightarrow> Inr (a @ b)))"
    by (simp only: walk.simps walk_loop_append)
  have 6: "fst (fetchRepoFiles net env owner repo log) =
          Inr (Arr [Obj [(''path'', Str ''src/index.js''), (''size'', Num 1200)]])"
    if "truthy owner" "truthy repo"
       "net log (repoFilesRequest env owner repo) = Inr \<lparr>resp_status = 200, resp_data = example_tree\<rparr>"
    using that by (simp add: fetchRepoFiles_def flatten_example)
  from 1 2 3 4 5 6 show ?thesis by blast
qed

theorem flattenFiles_nodes_witness:
  "walk (Arr [Obj [(''name'', Str ''a.py''), (''file_type'', Str ''file''), (''size'', Num 7)]]) (Str ''src'')
     = Inr [Obj [(''path'', Str ''src/a.py''), (''size'', Num 7)]] \<and>
   walk (Arr [Obj [(''name'', Str ''src''),
                   (''children'', Arr [Obj [(''name'', Str ''a.py''), (''type'', Str ''file'')]])]]) (Str [])
     = Inr [Obj [(''path'', Str ''src/a.py''), (''size'', Num 0)]] \<and>
   walk (Arr [Obj [(''name'', Str ''lib''), (''type'', Str ''symlink'')]]) (Str []) = Inr [] \<and>
   walk (Arr [Null]) (Str []) = Inr [] \<and>
   fst (fetchRepoFiles (answering example_tree) None (Str ''octocat'') (Str ''hello'') []) =
     Inr (Arr [Obj [(''path'', Str ''src/index.js''), (''size'', Num 1200)]])"
proof -
  have 1: "walk (Arr [Obj [(''name'', Str ''a.py''), (''file_type'', Str ''file''), (''size'', Num 7)]]) (Str ''src'')
     = Inr [Obj [(''path'', Str ''src/a.py''), (''size'', Num 7)]]"
    using flattenFiles_nodes
      [of "Obj [(''name'', Str ''a.py''), (''file_type'', Str ''file''), (''size'', Num 7)]" "Str ''src''"]
    by (simp add: node_type_def js_or_def file_entry_def full_name_def)
  have 2: "walk (Arr [Obj [(''name'', Str ''src''),
                   (''children'', Arr [Obj [(''name'', Str ''a.py''), (''type'', Str ''file'')]])]]) (Str [])
     = Inr [Obj [(''path'', Str ''src/a.py''), (''size'', Num 0)]]"
    using flattenFiles_nodes
      [of "Obj [(''name'', Str ''src''),
                   (''children'', Arr [Obj [(''name'', Str ''a.py''), (''type'', Str ''file'')]])]" "Str []"]
    by (simp add: node_type_def js_or_def file_entry_def full_name_def)
  have 3: "walk (Arr [Obj [(''name'', Str ''lib''), (''type'', Str ''symlink'')]]) (Str []) = Inr []"
    using flattenFiles_nodes [of "Obj [(''name'', Str ''lib''), (''type'', Str ''symlink'')]" "Str []"]
    by (simp add: node_type_def js_or_def)
  have 4: "walk (Arr [Null]) (Str []) = Inr []"
    using flattenFiles_nodes [of Null "Str []"] by simp
  have 5: "fst (fetchRepoFiles (answering example_tree) None (Str ''octocat'') (Str ''hello'') []) =
     Inr (Arr [Obj [(''path'', Str ''src/index.js''), (''size'', Num 1200)]])"
    using flattenFiles_nodes
      [where owner = "Str ''octocat''" and repo = "Str ''hello''" and net = "answering example_tree"
         and log = "[]" and env = None]
    by (simp add: answering_def)
  from 1 2 3 4 5 show ?thesis by blast
qed

text \<open>
  C5, as stated, fails: a node without a \<^verbatim>\<open>type\<close> field and without children is
  emitted when its \<^verbatim>\<open>file_type\<close> is \<^verbatim>\<open>file\<close>; and a node of type \<^verbatim>\<open>file\<close>
  that carries children is not recursed into.
\<close>

theorem flattenFiles_file_type_counterexample:
  "flattenFiles (Arr [Obj [(''name'', Str ''x''), (''file_type'', Str ''file'')]]) (Str []) =
     Inr [Obj [(''path'', Str ''x''), (''size'', Num 0)]] \<and>
   flattenFiles (Arr [Obj [(''name'', Str ''a''), (''type'', Str ''file''),
                           (''children'', Arr [Obj [(''name'', Str ''b''), (''type'', Str ''file'')]])]])
                (Str []) =
     Inr [Obj [(''path'', Str ''a''), (''size'', Num 0)]]"
  by (simp add: flattenFiles_def node_type_def js_or_def file_entry_def full_name_def)

subsection \<open>Payload of a successful response\<close>

text \<open>
  C8, as the code has it. On a successful response, \<^verbatim>\<open>fetchRepoFiles\<close> returns the
  flattening of the body's \<^verbatim>\<open>files\<close> field, and the empty sequence when the body
  lacks it; \<^verbatim>\<open>fetchFileContents\<close> returns the \<^verbatim>\<open>files\<close> field when it is present
  and truthy, else the whole body when that is truthy, else an empty array.
\<close>

theorem success_payload:
  "(truthy owner \<and> truthy repo \<and> net log (repoFilesRequest env owner repo) = Inr res \<and>
    \<not> truthy (js_get (resp_data res) ''files'')
    \<longrightarrow> fst (fetchRepoFiles net env owner repo log) = Inr (Arr [])) \<and>
   (truthy owner \<and> truthy repo \<and> net log (repoFilesRequest env owner repo) = Inr res \<and>
    truthy (js_get (resp_data res) ''files'') \<and>
    flattenFiles (js_get (resp_data res) ''files'') (Str []) = Inr fs
    \<longrightarrow> fst (fetchRepoFiles net env owner repo log) = Inr (Arr fs)) \<and>
   (truthy owner \<and> truthy repo \<and> \<not> not_nonempty_array paths \<and>
    net log (fileContentsRequest env owner repo paths) = Inr res
    \<longrightarrow> fst (fetchFileContents net env owner repo paths log) =
          Inr (if truthy (js_get (resp_data res) ''files'') then js_get (resp_data res) ''files''
               else if truthy (resp_data res) then resp_data res
               else Arr []))"
proof -
  have 1: "fst (fetchRepoFiles net env owner repo log) = Inr (Arr [])"
    if "truthy owner" "truthy repo" "net log (repoFilesRequest env owner repo) = Inr res"
       "\<not> truthy (js_get (resp_data res) ''files'')"
    using that by (simp add: fetchRepoFiles_def js_or_def flattenFiles_def)
  have 2: "fst (fetchRepoFiles net env owner repo log) = Inr (Arr fs)"
    if "truthy owner" "truthy repo" "net log (repoFilesRequest env owner repo) = Inr res"
       "truthy (js_get (resp_data res) ''files'')"
       "flattenFiles (js_get (resp_data res) ''files'') (Str []) = Inr fs"
    using that by (simp add: fetchRepoFiles_def js_or_def)
  have 3: "fst (fetchFileContents net env owner repo paths log) =
          Inr (if truthy (js_get (resp_data res) ''files'') then js_get (resp_data res) ''files''
               else if truthy (resp_data res) then resp_data res
               else Arr [])"
    if "truthy owner" "truthy repo" "\<not> not_nonempty_array paths"
       "net log (fileContentsRequest env owner repo paths) = Inr res"
    using that by (simp add: fetchFileContents_def js_or_def)
  from 1 2 3 show ?thesis by blast
qed

theorem success_payload_witness:
  "fst (fetchRepoFiles (answering (Obj [(''repository'', Str ''octocat/hello'')])) None
          (Str ''octocat'') (Str ''hello'') []) = Inr (Arr []) \<and>
   fst (fetchRepoFiles (answering example_tree) None (Str ''octocat'') (Str ''hello'') []) =
     Inr (Arr [Obj [(''path'', Str ''src/index.js''), (''size'', Num 1200)]]) \<and>
   fst (fetchFileContents
          (answering (Obj [(''files'', Arr [Obj [(''path'', Str ''a.py''), (''content'', Str ''x = 1'')]])]))
          None (Str ''octocat'') (Str ''hello'') (Arr [Str ''a.py'']) []) =
     Inr (Arr [Obj [(''path'', Str ''a.py''), (''content'', Str ''x = 1'')]]) \<and>
   fst (fetchFileContents (answering Null) None (Str ''octocat'') (Str ''hello'') (Arr [Str ''a.py'']) []) =
     Inr (Arr [])"
proof -
  have 1: "fst (fetchRepoFiles (answering (Obj [(''repository'', Str ''octocat/hello'')])) None
          (Str ''octocat'') (Str ''hello'') []) = Inr (Arr [])"
    using success_payload
      [of "Str ''octocat''" "Str ''hello''" "answering (Obj [(''repository'', Str ''octocat/hello'')])"
          "[]" None "\<lparr>resp_status = 200, resp_data = Obj [(''repository'', Str ''octocat/hello'')]\<rparr>"]
    by (simp add: answering_def)
  have f: "flattenFiles (js_get example_tree ''files'') (Str []) =
             Inr [Obj [(''path'', Str ''src/index.js''), (''size'', Num 1200)]]"
    by (simp add: example_tree_def flattenFiles_def js_or_def node_type_def file_entry_def
          full_name_def)
  have 2: "fst (fetchRepoFiles (answering example_tree) None (Str ''octocat'') (Str ''hello'') []) =
     Inr (Arr [Obj [(''path'', Str ''src/index.js''), (''size'', Num 1200)]])"
    using f success_payload
      [of "Str ''octocat''" "Str ''hello''" "answering example_tree"
          "[]" None "\<lparr>resp_status = 200, resp_data = example_tree\<rparr>"
          "[Obj [(''path'', Str ''src/index.js''), (''size'', Num 1200)]]"]
    by (simp add: answering_def example_tree_def)
  have 3: "fst (fetchFileContents
          (answering (Obj [(''files'', Arr [Obj [(''path'', Str ''a.py''), (''content'', Str ''x = 1'')]])]))
          None (Str ''octocat'') (Str ''hello'') (Arr [Str ''a.py'']) []) =
     Inr (Arr [Obj [(''path'', Str ''a.py''), (''content'', Str ''x = 1'')]])"
    using success_payload
      [where owner = "Str ''octocat''" and repo = "Str ''hello''" and paths = "Arr [Str ''a.py'']"
         and net = "answering (Obj [(''files'', Arr [Obj [(''path'', Str ''a.py''), (''content'', Str ''x = 1'')]])])"
         and log = "[]" and env = None
         and res = "\<lparr>resp_status = 200, resp_data = Obj [(''files'', Arr [Obj [(''path'', Str ''a.py''), (''content'', Str ''x = 1'')]])]\<rparr>"]
    by (simp add: answering_def)
  have 4: "fst (fetchFileContents (answering Null) None (Str ''octocat'') (Str ''hello'') (Arr [Str ''a.py'']) []) =
     Inr (Arr [])"
    using success_payload
      [where owner = "Str ''octocat''" and repo = "Str ''hello''" and paths = "Arr [Str ''a.py'']"
         and net = "answering Null" and log = "[]" and env = None
         and res = "\<lparr>resp_status = 200, resp_data = Null\<rparr>"]
    by (simp add: answering_def)
  from 1 2 3 4 show ?thesis by blast
qed

text \<open>
  C8, as stated, fails: for a body without a \<^verbatim>\<open>files\<close> field,
  \<^verbatim>\<open>fetchFileContents\<close> returns the body itself, not an empty collection.
\<close>

theorem fetchFileContents_whole_body_counterexample:
  "fst (fetchFileContents
          (answering (Arr [Obj [(''path'', Str ''a.py''), (''content'', Str ''x = 1'')]]))
          None (Str ''octocat'') (Str ''hello'') (Arr [Str ''a.py'']) []) =
     Inr (Arr [Obj [(''path'', Str ''a.py''), (''content'', Str ''x = 1'')]]) \<and>
   fst (fetchFileContents (answering (Obj [(''total_count'', Num 0)]))
          None (Str ''octocat'') (Str ''hello'') (Arr [Str ''a.py'']) []) =
     Inr (Obj [(''total_count'', Num 0)])"
  by (simp add: fetchFileContents_def answering_def js_or_def)

end
